theory Spec2Isabelle
  imports Complex_Main "HOL-Library.Log_Nat"
begin

section \<open>Page text: whitespace, trimming, substring search\<close>

text \<open>
  Page text is a \<^typ>\<open>string\<close>, a list of 8-bit characters. The white space of
  \<^verbatim>\<open>String.prototype.trim\<close> and of numeric coercion is the set of ECMAScript
  WhiteSpace and LineTerminator characters; the ones that fit in 8 bits are TAB, LF, VT,
  FF, CR, SPACE and NBSP.
\<close>

definition is_ws :: "char \<Rightarrow> bool" where
  "is_ws c \<longleftrightarrow> c \<in> set [CHR 0x09, CHR 0x0A, CHR 0x0B, CHR 0x0C, CHR 0x0D, CHR 0x20, CHR 0xA0]"

definition trim :: "string \<Rightarrow> string" where
  "trim s = rev (dropWhile is_ws (rev (dropWhile is_ws s)))"

text \<open>\<^verbatim>\<open>s.includes(sub)\<close>: \<open>sub\<close> occurs in \<open>s\<close> at some position.\<close>

fun str_includes :: "string \<Rightarrow> string \<Rightarrow> bool" where
  "str_includes [] sub = (sub = [])"
| "str_includes (c # s) sub = (take (length sub) (c # s) = sub \<or> str_includes s sub)"

section \<open>Numbers and the unary plus\<close>

text \<open>
  A JavaScript number is a binary64 value: NaN, an infinity, or a finite value, given by
  the rational it denotes. The sign of zero is not modelled: both zeros are \<open>Num 0\<close>; they
  are equal for \<^verbatim>\<open>===\<close> and are written as the same \<^verbatim>\<open>0\<close> in JSON.
\<close>

datatype number = NaN | Infinity | NegInfinity | Num rat

text \<open>
  The Number value for a rational: the nearest binary64 value, the one with the even
  significand when two are as near, and an infinity from \<open>2 ^ 1024 - 2 ^ 970\<close> on.
  \<open>binade x\<close> is the exponent \<open>e\<close> with \<open>2 ^ e \<le> x < 2 ^ (e + 1)\<close>, for a positive \<open>x\<close>;
  \<open>quantum x\<close> is the distance between the binary64 values around \<open>x\<close>: 52 binary places
  below the binade, and not below that of the subnormal numbers.
\<close>

definition binade :: "rat \<Rightarrow> int" where
  "binade x =
     (let (p, q) = quotient_of x;
          d = bitlen p - bitlen q
      in if 2 powi d \<le> x then d else d - 1)"

definition quantum :: "rat \<Rightarrow> rat" where
  "quantum x = 2 powi (max (binade \<bar>x\<bar>) (- 1022) - 52)"

definition round_half_even :: "rat \<Rightarrow> int" where
  "round_half_even x =
     (let f = \<lfloor>x\<rfloor>; r = x - of_int f
      in if r < 1 / 2 then f else if 1 / 2 < r then f + 1 else if even f then f else f + 1)"

definition binary64 :: "rat \<Rightarrow> number" where
  "binary64 x =
     (if x = 0 then Num 0
      else let m = round_half_even (x / quantum x)
           in if 1024 \<le> binade \<bar>x\<bar> \<or> (binade \<bar>x\<bar> = 1023 \<and> \<bar>m\<bar> = 2 ^ 53)
              then (if 0 < x then Infinity else NegInfinity)
              else Num (of_int m * quantum x))"

definition is_digit :: "char \<Rightarrow> bool" where
  "is_digit c \<longleftrightarrow> c \<in> set ''0123456789''"

text \<open>The value of a digit in a base up to 16, when the character is one.\<close>

definition digit_of :: "nat \<Rightarrow> char \<Rightarrow> nat option" where
  "digit_of base c =
     (let n = of_char c :: nat;
          v = (if 48 \<le> n \<and> n \<le> 57 then Some (n - 48)
               else if 97 \<le> n \<and> n \<le> 102 then Some (n - 87)
               else if 65 \<le> n \<and> n \<le> 70 then Some (n - 55)
               else None)
      in case v of None \<Rightarrow> None | Some d \<Rightarrow> if d < base then Some d else None)"

text \<open>The value of a non-empty string of digits in the base; \<open>None\<close> when a character is
  not a digit of the base or the string is empty.\<close>

fun digits_acc :: "nat \<Rightarrow> int \<Rightarrow> string \<Rightarrow> int option" where
  "digits_acc base acc [] = Some acc"
| "digits_acc base acc (c # s) =
     (case digit_of base c of
        None \<Rightarrow> None
      | Some d \<Rightarrow> digits_acc base (acc * int base + int d) s)"

definition digits_value :: "nat \<Rightarrow> string \<Rightarrow> int option" where
  "digits_value base s = (if s = [] then None else digits_acc base 0 s)"

text \<open>ExponentPart: \<^verbatim>\<open>e\<close> or \<^verbatim>\<open>E\<close>, an optional sign, one or more decimal digits.
  The empty string is the absent exponent.\<close>

definition exponent_part :: "string \<Rightarrow> int option" where
  "exponent_part s =
     (case s of
        [] \<Rightarrow> Some 0
      | c # r \<Rightarrow>
          if c = CHR ''e'' \<or> c = CHR ''E'' then
            (case r of
               [] \<Rightarrow> None
             | d # r' \<Rightarrow>
                 if d = CHR ''-'' then map_option uminus (digits_value 10 r')
                 else if d = CHR ''+'' then digits_value 10 r'
                 else digits_value 10 r)
          else None)"

definition pow10 :: "int \<Rightarrow> rat" where
  "pow10 e = (if 0 \<le> e then 10 ^ nat e else 1 / 10 ^ nat (- e))"

text \<open>StrUnsignedDecimalLiteral without \<^verbatim>\<open>Infinity\<close>: digits, an optional point and
  digits (at least one digit on one side of the point), an optional exponent; the result
  is the mathematical value of the literal.\<close>

definition unsigned_decimal :: "string \<Rightarrow> rat option" where
  "unsigned_decimal s =
     (let ip = takeWhile is_digit s;
          r1 = dropWhile is_digit s;
          has_point = (r1 \<noteq> [] \<and> hd r1 = CHR ''.'');
          fp = (if has_point then takeWhile is_digit (tl r1) else []);
          r2 = (if has_point then dropWhile is_digit (tl r1) else r1)
      in if ip = [] \<and> fp = [] then None
         else case exponent_part r2 of
                None \<Rightarrow> None
              | Some e \<Rightarrow>
                  Some ((of_int (case digits_value 10 ip of None \<Rightarrow> 0 | Some n \<Rightarrow> n)
                         + of_int (case digits_value 10 fp of None \<Rightarrow> 0 | Some n \<Rightarrow> n)
                             / 10 ^ length fp)
                        * pow10 e))"

definition str_unsigned_decimal :: "string \<Rightarrow> number" where
  "str_unsigned_decimal s =
     (if s = ''Infinity'' then Infinity
      else case unsigned_decimal s of None \<Rightarrow> NaN | Some v \<Rightarrow> binary64 v)"

definition negate :: "number \<Rightarrow> number" where
  "negate x = (case x of NaN \<Rightarrow> NaN | Infinity \<Rightarrow> NegInfinity | NegInfinity \<Rightarrow> Infinity
               | Num v \<Rightarrow> Num (- v))"

text \<open>NonDecimalIntegerLiteral: \<^verbatim>\<open>0b\<close>, \<^verbatim>\<open>0o\<close> or \<^verbatim>\<open>0x\<close> (either case) and
  digits of the base; it takes no sign.\<close>

definition non_decimal :: "string \<Rightarrow> int option" where
  "non_decimal s =
     (case s of
        z # p # r \<Rightarrow>
          if z \<noteq> CHR ''0'' then None
          else if p = CHR ''b'' \<or> p = CHR ''B'' then digits_value 2 r
          else if p = CHR ''o'' \<or> p = CHR ''O'' then digits_value 8 r
          else if p = CHR ''x'' \<or> p = CHR ''X'' then digits_value 16 r
          else None
      | _ \<Rightarrow> None)"

text \<open>
  StringToNumber: white space is stripped on both sides; the empty string is 0; a string
  that is not a StringNumericLiteral is NaN; the mathematical value of a literal is
  rounded to binary64.
\<close>

definition string_to_number :: "string \<Rightarrow> number" where
  "string_to_number str =
     (let s = trim str
      in if s = [] then Num 0
         else case non_decimal s of
                Some n \<Rightarrow> binary64 (of_int n)
              | None \<Rightarrow>
                  if hd s = CHR ''+'' then str_unsigned_decimal (tl s)
                  else if hd s = CHR ''-'' then negate (str_unsigned_decimal (tl s))
                  else str_unsigned_decimal s)"

text \<open>The unary plus on a value that is a string or \<^verbatim>\<open>undefined\<close> (\<open>None\<close>).\<close>

definition unary_plus :: "string option \<Rightarrow> number" where
  "unary_plus v = (case v of None \<Rightarrow> NaN | Some s \<Rightarrow> string_to_number s)"

text \<open>
  A number returned by value from the page to the scraper, as JSON: a finite number is
  itself; NaN and the infinities, which JSON does not have, are \<^verbatim>\<open>null\<close> (\<open>None\<close>).
\<close>

definition json_number :: "number \<Rightarrow> number option" where
  "json_number x = (case x of Num v \<Rightarrow> Some (Num v) | _ \<Rightarrow> None)"

text \<open>The relation \<^verbatim>\<open>x <= y\<close> on numbers: false when either side is NaN.\<close>

fun num_le :: "number \<Rightarrow> number \<Rightarrow> bool" where
  "num_le NaN _ = False"
| "num_le _ NaN = False"
| "num_le NegInfinity _ = True"
| "num_le _ Infinity = True"
| "num_le Infinity _ = False"
| "num_le _ NegInfinity = False"
| "num_le (Num a) (Num b) = (a \<le> b)"

section \<open>Regular expressions\<close>

text \<open>
  The two patterns of the scraper use literals, \<^verbatim>\<open>\d\<close>, a greedy \<^verbatim>\<open>[^c]+\<close>,
  sequencing, a greedy optional group and capture groups. \<open>rmatch\<close> lists, in the
  order a backtracking matcher tries them, the ways the pattern matches a prefix of the
  input: the remaining input and the captures of each.
\<close>

datatype regex =
    Lit string
  | Digit
  | PlusNot char
  | Seq regex regex
  | Opt regex
  | Group nat regex

type_synonym captures = "(nat \<times> string) list"

fun rmatch :: "regex \<Rightarrow> string \<Rightarrow> captures \<Rightarrow> (string \<times> captures) list" where
  "rmatch (Lit l) s cs = (if take (length l) s = l then [(drop (length l) s, cs)] else [])"
| "rmatch Digit s cs =
     (case s of [] \<Rightarrow> [] | c # r \<Rightarrow> if is_digit c then [(r, cs)] else [])"
| "rmatch (PlusNot x) s cs =
     map (\<lambda>k. (drop k s, cs)) (rev [1..<Suc (length (takeWhile (\<lambda>c. c \<noteq> x) s))])"
| "rmatch (Seq r1 r2) s cs = concat (map (\<lambda>(s', cs'). rmatch r2 s' cs') (rmatch r1 s cs))"
| "rmatch (Opt r) s cs = rmatch r s cs @ [(s, cs)]"
| "rmatch (Group n r) s cs =
     map (\<lambda>(s', cs'). (s', (n, take (length s - length s') s) # cs')) (rmatch r s cs)"

text \<open>
  \<^verbatim>\<open>re.exec(s)\<close> for a pattern with \<open>n\<close> groups: the leftmost start position with a
  match, and there the first match in backtracking order. The result is \<open>None\<close> for
  \<^verbatim>\<open>null\<close>, or the match array: the matched text, then the groups 1 to \<open>n\<close>
  (\<open>None\<close> for \<^verbatim>\<open>undefined\<close>, a group that did not take part).
\<close>

definition match_array :: "nat \<Rightarrow> string \<Rightarrow> string \<times> captures \<Rightarrow> string option list" where
  "match_array n s m =
     Some (take (length s - length (fst m)) s) # map (map_of (snd m)) [1..<Suc n]"

fun exec :: "regex \<Rightarrow> nat \<Rightarrow> string \<Rightarrow> string option list option" where
  "exec r n [] =
     (case rmatch r [] [] of [] \<Rightarrow> None | m # _ \<Rightarrow> Some (match_array n [] m))"
| "exec r n (c # s) =
     (case rmatch r (c # s) [] of [] \<Rightarrow> exec r n s | m # _ \<Rightarrow> Some (match_array n (c # s) m))"

text \<open>
  Array access \<^verbatim>\<open>xs[i]\<close>, \<open>None\<close> for \<^verbatim>\<open>undefined\<close>: on an array of
  elements, and on an array whose entries may themselves be \<^verbatim>\<open>null\<close> or
  \<^verbatim>\<open>undefined\<close>. \<^verbatim>\<open>xs.slice(i, j)\<close> for indices that are not negative.
\<close>

definition js_nth :: "'a list \<Rightarrow> nat \<Rightarrow> 'a option" where
  "js_nth xs i = (if i < length xs then Some (xs ! i) else None)"

definition js_nth_opt :: "'a option list \<Rightarrow> nat \<Rightarrow> 'a option" where
  "js_nth_opt xs i = (if i < length xs then xs ! i else None)"

definition slice :: "'a list \<Rightarrow> nat \<Rightarrow> nat \<Rightarrow> 'a list" where
  "slice xs i j = take (j - i) (drop i xs)"

text \<open>\<^verbatim>\<open>/\(([^)]+)\)/\<close>\<close>

definition paren_re :: regex where
  "paren_re = Seq (Lit ''('') (Seq (Group 1 (PlusNot (CHR '')''))) (Lit '')''))"

text \<open>\<^verbatim>\<open>/scale is (\d(?:\.\d)?)\.\.(\d(?:\.\d)?)/\<close>\<close>

definition scale_re :: regex where
  "scale_re =
     Seq (Lit ''scale is '')
       (Seq (Group 1 (Seq Digit (Opt (Seq (Lit ''.'') Digit))))
         (Seq (Lit ''..'')
           (Group 2 (Seq Digit (Opt (Seq (Lit ''.'') Digit))))))"

section \<open>Pages, as the scraper's selectors see them\<close>

record anchor =
  href :: string
  a_title :: string
  a_text :: string

text \<open>A table cell: its \<^verbatim>\<open>innerText\<close>, its first \<^verbatim>\<open>a\<close> descendant and the
  \<^verbatim>\<open>innerText\<close> of its first \<^verbatim>\<open>b\<close> descendant, when there is one
  (\<^verbatim>\<open>querySelector\<close> gives \<^verbatim>\<open>null\<close> otherwise).\<close>

record td =
  td_text :: string
  td_a :: "anchor option"
  td_b :: "string option"

text \<open>A row of a listing is the list of the cells under it, in document order:
  \<^verbatim>\<open>tr.querySelectorAll('td')\<close>.\<close>

type_synonym tr = "td list"

text \<open>
  A row of the info table of a review page, by what the callbacks select under it:
  \<open>second_td\<close> is \<^verbatim>\<open>tr.querySelector('td:nth-of-type(2)')\<close>, and \<open>second_td_b\<close> is the
  \<^verbatim>\<open>innerText\<close> of \<^verbatim>\<open>tr.querySelector('td:nth-of-type(2) b')\<close>; each is \<open>None\<close> when
  the selector finds nothing. In a row without nested tables the first is the second
  cell and the second is the text of the first bold element of that cell.
\<close>

record info_row =
  second_td :: "td option"
  second_td_b :: "string option"

definition plain_row :: "td list \<Rightarrow> info_row" where
  "plain_row tds =
     \<lparr>second_td = (if 1 < length tds then Some (tds ! 1) else None),
      second_td_b = (if 1 < length tds then td_b (tds ! 1) else None)\<rparr>"

text \<open>
  A page is what each of the scraper's fixed selectors finds on it, in document order:
  \<^item> \<open>has_login_form\<close>: the two inputs of the login form are there;
  \<^item> \<open>category_links\<close>: the anchors of \<^verbatim>\<open>h1 + div table td a\<close>, each with the
    \<^verbatim>\<open>innerText\<close> of the first cell under its grandparent, when there is one;
  \<^item> \<open>listing_rows\<close>: the \<^verbatim>\<open>tr\<close> elements of \<^verbatim>\<open>h1 + blockquote table tr\<close>, each with
    its position, counted from 1, among the element children of its own parent (a
    \<^verbatim>\<open>tbody\<close>, a \<^verbatim>\<open>thead\<close>, a nested table), which is what \<^verbatim>\<open>:nth-child\<close> counts;
  \<^item> \<open>review_links\<close>: the anchors of
    \<^verbatim>\<open>#wrap > h1:nth-of-type(2) + blockquote table tr a\<close>;
  \<^item> \<open>info_rows\<close>: the rows of \<^verbatim>\<open>table:nth-of-type(2) tr\<close>;
  \<^item> \<open>review_trs\<close>: the \<^verbatim>\<open>innerText\<close> of each row of
    \<^verbatim>\<open>table:nth-of-type(3) > tbody > tr\<close>.
\<close>

record page =
  has_login_form :: bool
  category_links :: "(anchor \<times> string option) list"
  listing_rows :: "(nat \<times> tr) list"
  review_links :: "anchor list"
  info_rows :: "info_row list"
  review_trs :: "string list"

text \<open>\<^verbatim>\<open>:nth-child(n + k)\<close>: of elements given with their positions, those whose
  position is \<open>n + k\<close> for some \<open>n \<ge> 0\<close>.\<close>

definition nth_child_from :: "nat \<Rightarrow> (nat \<times> 'a) list \<Rightarrow> 'a list" where
  "nth_child_from k xs = map snd (filter (\<lambda>(i, x). k \<le> i) xs)"

text \<open>The rows of a table whose rows are all the children of one parent that has no other
  child: the row at index \<open>i\<close> has the position \<open>i + 1\<close>.\<close>

definition sibling_rows :: "'a list \<Rightarrow> (nat \<times> 'a) list" where
  "sibling_rows xs = enumerate 1 xs"

section \<open>Errors and promises\<close>

text \<open>
  \<open>TypeError\<close> is the reading of a property of \<^verbatim>\<open>null\<close> or \<^verbatim>\<open>undefined\<close>.
  The others are the rejections of the collaborators: a navigation that fails, a click on
  a selector that has no node, a credential file that cannot be read or parsed, an output
  file that cannot be written.
\<close>

datatype error = TypeError | NavigationError | NoNodeError | CredentialsError | WriteError

text \<open>The state of a promise once the run is over.\<close>

datatype 'a promise = Pending | Rejected error | Resolved 'a

definition await :: "'a promise \<Rightarrow> ('a \<Rightarrow> 'b promise) \<Rightarrow> 'b promise" where
  "await p f = (case p of Pending \<Rightarrow> Pending | Rejected e \<Rightarrow> Rejected e | Resolved x \<Rightarrow> f x)"

text \<open>\<^verbatim>\<open>$eval\<close> and \<^verbatim>\<open>$$eval\<close> reject with what their callback throws, and fulfil
  with what it returns, passed by value (see \<open>by_value\<close> below for the one result that
  holds numbers; strings and booleans are returned as they are, and a property that is
  \<^verbatim>\<open>undefined\<close> is left out).\<close>

definition evaluated :: "error + 'a \<Rightarrow> 'a promise" where
  "evaluated r = (case r of Inl e \<Rightarrow> Rejected e | Inr x \<Rightarrow> Resolved x)"

text \<open>Sequencing of steps that may throw, and the reading of a property of a value that
  may be \<^verbatim>\<open>null\<close> or \<^verbatim>\<open>undefined\<close>.\<close>

definition bind_throw :: "error + 'a \<Rightarrow> ('a \<Rightarrow> error + 'b) \<Rightarrow> error + 'b" where
  "bind_throw r f = (case r of Inl e \<Rightarrow> Inl e | Inr x \<Rightarrow> f x)"

definition defined :: "'a option \<Rightarrow> error + 'a" where
  "defined v = (case v of None \<Rightarrow> Inl TypeError | Some x \<Rightarrow> Inr x)"

text \<open>\<^verbatim>\<open>Array.prototype.map\<close> with a callback that may throw: the first throw ends it.\<close>

fun map_throw :: "('a \<Rightarrow> error + 'b) \<Rightarrow> 'a list \<Rightarrow> error + 'b list" where
  "map_throw f [] = Inr []"
| "map_throw f (x # xs) =
     bind_throw (f x) (\<lambda>y. bind_throw (map_throw f xs) (\<lambda>ys. Inr (y # ys)))"

text \<open>
  \<^verbatim>\<open>Promise.all\<close>, by its resolve-element functions: the promises settle in the order
  \<open>order\<close> (a list of indices); a fulfilment of promise \<open>i\<close> stores its value at index
  \<open>i\<close> of \<open>values\<close>, once, and counts down; the count reaching zero resolves with
  \<open>values\<close>; the first rejection rejects. A promise that never settles is passed over,
  and the result stays pending when the order ends before the count is zero.
\<close>

fun settle_all :: "nat list \<Rightarrow> 'a promise list \<Rightarrow> 'a option list \<Rightarrow> nat \<Rightarrow> 'a list promise" where
  "settle_all [] ps values remaining = Pending"
| "settle_all (i # order) ps values remaining =
     (if i < length ps then
        (case ps ! i of
           Pending \<Rightarrow> settle_all order ps values remaining
         | Rejected e \<Rightarrow> Rejected e
         | Resolved v \<Rightarrow>
             if values ! i \<noteq> None then settle_all order ps values remaining
             else if remaining - 1 = 0
               then (case those (values[i := Some v]) of
                       None \<Rightarrow> Pending
                     | Some vs \<Rightarrow> Resolved vs)
               else settle_all order ps (values[i := Some v]) (remaining - 1))
      else settle_all order ps values remaining)"

definition promise_all :: "nat list \<Rightarrow> 'a promise list \<Rightarrow> 'a list promise" where
  "promise_all order ps =
     (if ps = [] then Resolved []
      else settle_all order ps (replicate (length ps) None) (length ps))"

section \<open>The environment of a run\<close>

text \<open>
  \<^item> \<open>pkg_name\<close>, \<open>pkg_version\<close>: the two fields read from \<^verbatim>\<open>package.json\<close>;
  \<^item> \<open>creds\<close>: the user name and password of the credential file, \<open>None\<close> when reading
    or parsing it throws;
  \<^item> \<open>now\<close>: what \<^verbatim>\<open>new Date()\<close> serialises to;
  \<^item> \<open>web\<close>: the page a navigation to an address ends on, \<open>None\<close> when it fails;
  \<^item> \<open>submit_login\<close>: the page the login form leads to, \<open>None\<close> when that navigation
    fails;
  \<^item> \<open>sched\<close>: for the addresses a fan-out launches, the order in which its operations
    settle;
  \<^item> \<open>writable\<close>: the output file can be written.
  Launching the browser, opening a tab and closing it are taken to succeed.
\<close>

record env =
  pkg_name :: string
  pkg_version :: string
  creds :: "(string \<times> string) option"
  now :: string
  web :: "string \<Rightarrow> page option"
  submit_login :: "string \<Rightarrow> string \<Rightarrow> page option"
  sched :: "string list \<Rightarrow> nat list"
  writable :: bool

definition goto :: "env \<Rightarrow> string \<Rightarrow> page promise" where
  "goto env address =
     (case web env address of None \<Rightarrow> Rejected NavigationError | Some p \<Rightarrow> Resolved p)"

definition logIn :: "env \<Rightarrow> page \<Rightarrow> string \<Rightarrow> string \<Rightarrow> page promise" where
  "logIn env loginPage username password =
     (if \<not> has_login_form loginPage then Rejected NoNodeError
      else case submit_login env username password of
             None \<Rightarrow> Rejected NavigationError
           | Some p \<Rightarrow> Resolved p)"

section \<open>Categories\<close>

record category_link =
  name :: string
  address :: string

text \<open>\<^verbatim>\<open>Object.assign({}, cat, { submissions })\<close> extends a category link.\<close>

record 's category = category_link +
  submissions :: "'s list"

text \<open>\<^verbatim>\<open>scrapeSubmissionCategories\<close> (\<^verbatim>\<open>fetchSubmissionCategories\<close> in
  \<^verbatim>\<open>part_000\<close>): the callback over the links of the landing page.\<close>

definition scrapeSubmissionCategories :: "page \<Rightarrow> category_link list promise" where
  "scrapeSubmissionCategories mainReviewsPage =
     evaluated
       (map_throw
          (\<lambda>(link, row_td).
             bind_throw (defined row_td) (\<lambda>t. Inr \<lparr>name = t, address = href link\<rparr>))
          (category_links mainReviewsPage))"

section \<open>One review\<close>

record review_part =
  title :: "string option"
  content :: "string option"

text \<open>
  The review parts of \<^verbatim>\<open>index.js\<close>, lines 211 to 223: the rows at even indices are
  the titles; the title at index \<open>i\<close> of those goes with the row at index \<open>i * 2 + 1\<close>
  of all rows. An empty \<^verbatim>\<open>innerText\<close> is falsy and gives the title \<^verbatim>\<open>null\<close>.
\<close>

definition review_parts :: "string list \<Rightarrow> review_part list" where
  "review_parts reviewTrs =
     filter (\<lambda>p. title p \<noteq> Some [])
       (map (\<lambda>(i, t).
               \<lparr>title = (if t \<noteq> [] then Some (trim t) else None),
                content = (case js_nth reviewTrs (i * 2 + 1) of
                             Some c \<Rightarrow> Some (trim c)
                           | None \<Rightarrow> None)\<rparr>)
          (enumerate 0 (map snd (filter (\<lambda>(i, x). i mod 2 = 0) (enumerate 0 reviewTrs)))))"

text \<open>The fields of the review object of \<^verbatim>\<open>index.js\<close>, lines 450 to 456; the one of
  lines 225 to 237 has three more; \<^verbatim>\<open>Object.assign({ isUser }, result)\<close> adds a last
  one. A scale is \<open>None\<close> for \<^verbatim>\<open>null\<close>. The type \<open>'n\<close> is the type of the numbers.\<close>

record 'n review_base =
  number :: 'n
  rating :: 'n
  reviewerExpertise :: 'n
  reviewerType :: "string option"

record 'n review_info = "'n review_base" +
  ratingScale :: "'n list option"
  expertiseScale :: "'n list option"
  reviewParts :: "review_part list"

record 'n review = "'n review_info" +
  isUser :: bool

text \<open>
  In the page the numbers of a review are numbers (\<open>number review_info\<close>). What
  \<^verbatim>\<open>$eval\<close> hands to the scraper is that object passed by value, where every number
  is as \<open>json_number\<close> has it (\<open>number option review_info\<close>).
\<close>

definition by_value :: "number review_info \<Rightarrow> number option review_info" where
  "by_value r =
     \<lparr>number = json_number (number r),
      rating = json_number (rating r),
      reviewerExpertise = json_number (reviewerExpertise r),
      reviewerType = reviewerType r,
      ratingScale = map_option (map json_number) (ratingScale r),
      expertiseScale = map_option (map json_number) (expertiseScale r),
      reviewParts = reviewParts r\<rparr>"

text \<open>The three cells the callbacks read: the second cell of the rows 0, 2 and 3 of the
  info table. Reading a property of a missing one throws.\<close>

definition info_td :: "page \<Rightarrow> nat \<Rightarrow> error + td" where
  "info_td body i = defined (js_nth_opt (map second_td (info_rows body)) i)"

text \<open>\<^verbatim>\<open>cell.querySelector('b').innerText\<close>\<close>

definition bold_text :: "td \<Rightarrow> error + string" where
  "bold_text c = defined (td_b c)"

text \<open>\<^verbatim>\<open>m ? m.slice(1, 3).map(x => +x) : null\<close>\<close>

definition scale_of :: "string option list option \<Rightarrow> number list option" where
  "scale_of m = (case m of None \<Rightarrow> None | Some arr \<Rightarrow> Some (map unary_plus (slice arr 1 3)))"

text \<open>\<^verbatim>\<open>reviewerMatch ? reviewerMatch[1] : 'external'\<close>\<close>

definition reviewer_type_of :: "string option list option \<Rightarrow> string option" where
  "reviewer_type_of reviewerMatch =
     (case reviewerMatch of None \<Rightarrow> Some ''external'' | Some arr \<Rightarrow> js_nth_opt arr 1)"

text \<open>The callback of \<^verbatim>\<open>scrapeSubmissionReview\<close>, \<^verbatim>\<open>index.js\<close> lines 196 to 238.\<close>

definition review_of_body :: "page \<Rightarrow> error + number review_info" where
  "review_of_body body =
     bind_throw (info_td body 0) (\<lambda>reviewerTd.
     bind_throw (info_td body 2) (\<lambda>ratingTd.
     bind_throw (info_td body 3) (\<lambda>expertiseTd.
     let reviewerMatch = exec paren_re 1 (td_text reviewerTd);
         ratingScaleMatch = exec scale_re 2 (td_text ratingTd);
         expertiseScaleMatch = exec scale_re 2 (td_text expertiseTd);
         reviewParts = review_parts (review_trs body)
     in
     bind_throw (bold_text reviewerTd) (\<lambda>n.
     bind_throw (bold_text ratingTd) (\<lambda>r.
     bind_throw (bold_text expertiseTd) (\<lambda>x.
     Inr \<lparr>number = unary_plus (Some n),
          rating = unary_plus (Some r),
          reviewerExpertise = unary_plus (Some x),
          reviewerType = reviewer_type_of reviewerMatch,
          ratingScale = scale_of ratingScaleMatch,
          expertiseScale = scale_of expertiseScaleMatch,
          reviewParts = reviewParts\<rparr>))))))"

text \<open>The callback of the later \<^verbatim>\<open>scrapeSubmissionReview\<close>, \<^verbatim>\<open>index.js\<close> lines 445
  to 457, which reads the rows by index.\<close>

definition review_of_body_445 :: "page \<Rightarrow> error + number review_base" where
  "review_of_body_445 body =
     bind_throw (defined (js_nth (info_rows body) 0)) (\<lambda>row0.
     bind_throw (defined (second_td row0)) (\<lambda>reviewerTd.
     let reviewerMatch = exec paren_re 1 (td_text reviewerTd) in
     bind_throw (defined (second_td_b row0)) (\<lambda>n.
     bind_throw (defined (js_nth (info_rows body) 2)) (\<lambda>row2.
     bind_throw (defined (second_td_b row2)) (\<lambda>r.
     bind_throw (defined (js_nth (info_rows body) 3)) (\<lambda>row3.
     bind_throw (defined (second_td_b row3)) (\<lambda>x.
     Inr \<lparr>number = unary_plus (Some n),
          rating = unary_plus (Some r),
          reviewerExpertise = unary_plus (Some x),
          reviewerType = reviewer_type_of reviewerMatch\<rparr>)))))))"

text \<open>\<^verbatim>\<open>scrapeSubmissionReview\<close>, \<^verbatim>\<open>index.js\<close> lines 191 to 241: \<open>result\<close> is what the
  callback returns, passed by value.\<close>

definition scrapeSubmissionReview :: "env \<Rightarrow> string \<Rightarrow> bool \<Rightarrow> number option review promise" where
  "scrapeSubmissionReview env reviewPageAddress is_user =
     await (goto env reviewPageAddress) (\<lambda>reviewPage.
     await (evaluated (bind_throw (review_of_body reviewPage) (\<lambda>r. Inr (by_value r))))
       (\<lambda>result.
     Resolved (review_info.extend result (review.fields is_user))))"

section \<open>The reviews of a submission\<close>

text \<open>The callback over the review links: \<^verbatim>\<open>{ address, isUser }\<close> as a pair.\<close>

definition review_addresses :: "page \<Rightarrow> (string \<times> bool) list" where
  "review_addresses submissionPage =
     map (\<lambda>link. (href link, str_includes (a_text link) ''(you)'')) (review_links submissionPage)"

definition scrapeSubmissionReviews :: "env \<Rightarrow> string \<Rightarrow> number option review list promise" where
  "scrapeSubmissionReviews env submissionPageAddress =
     await (goto env submissionPageAddress) (\<lambda>submissionPage.
     let reviewAddresses = review_addresses submissionPage
     in promise_all (sched env (map fst reviewAddresses))
          (map (\<lambda>(a, u). scrapeSubmissionReview env a u) reviewAddresses))"

section \<open>The submissions of a category\<close>

record submission_row =
  sub_id :: string
  sub_title :: string
  submissionAddress :: string
  reviewsAddress :: string
  reviewStatus :: string
  coordinator :: "string option"

record submission_row_award = submission_row +
  award :: string

record submission = submission_row +
  reviews :: "number option review list"

text \<open>\<^verbatim>\<open>tds[i]\<close> and \<^verbatim>\<open>tds[i].querySelector('a')\<close>, then a property of it.\<close>

definition cell :: "tr \<Rightarrow> nat \<Rightarrow> error + td" where
  "cell tds i = defined (js_nth tds i)"

definition cell_anchor :: "tr \<Rightarrow> nat \<Rightarrow> error + anchor" where
  "cell_anchor tds i = bind_throw (cell tds i) (\<lambda>c. defined (td_a c))"

text \<open>\<^verbatim>\<open>coordinatorMatch ? coordinatorMatch[1] : undefined\<close>\<close>

definition coordinator_of :: "string option list option \<Rightarrow> string option" where
  "coordinator_of coordinatorMatch =
     (case coordinatorMatch of None \<Rightarrow> None | Some arr \<Rightarrow> js_nth_opt arr 1)"

text \<open>The row callback of \<^verbatim>\<open>scrapeSubmissions\<close>, \<^verbatim>\<open>index.js\<close> lines 293 to 304.\<close>

definition submission_of_tr :: "tr \<Rightarrow> error + submission_row" where
  "submission_of_tr tds =
     bind_throw (cell tds 14) (\<lambda>td14.
     let coordinatorMatch = exec paren_re 1 (td_text td14) in
     bind_throw (cell tds 6) (\<lambda>td6.
     bind_throw (cell_anchor tds 8) (\<lambda>a8.
     bind_throw (cell_anchor tds 12) (\<lambda>a12.
     bind_throw (cell tds 0) (\<lambda>td0.
     Inr \<lparr>sub_id = td_text td6,
          sub_title = a_title a8,
          submissionAddress = href a8,
          reviewsAddress = href a12,
          reviewStatus = td_text td0,
          coordinator = coordinator_of coordinatorMatch\<rparr>)))))"

text \<open>The row callback of the later revision, lines 512 to 524, which adds the award.\<close>

definition submission_of_tr_512 :: "tr \<Rightarrow> error + submission_row_award" where
  "submission_of_tr_512 tds =
     bind_throw (submission_of_tr tds) (\<lambda>sub.
     bind_throw (cell tds 4) (\<lambda>td4.
     Inr (submission_row.extend sub (submission_row_award.fields (td_text td4)))))"

text \<open>The selector \<^verbatim>\<open>h1 + blockquote table tr:nth-child(n + 4)\<close> on a listing page.\<close>

definition submission_trs :: "page \<Rightarrow> tr list" where
  "submission_trs catPage = nth_child_from 4 (listing_rows catPage)"

definition scrapeSubmissions :: "env \<Rightarrow> string \<Rightarrow> submission list promise" where
  "scrapeSubmissions env submissionsPageAddress =
     await (goto env submissionsPageAddress) (\<lambda>catPage.
     await (evaluated (map_throw submission_of_tr (submission_trs catPage))) (\<lambda>subs.
     promise_all (sched env (map reviewsAddress subs))
       (map (\<lambda>sub.
               await (scrapeSubmissionReviews env (reviewsAddress sub)) (\<lambda>rs.
               Resolved (submission_row.extend sub (submission.fields rs))))
          subs)))"

text \<open>\<^verbatim>\<open>fetchSubmissionList\<close> of \<^verbatim>\<open>part_000\<close>, lines 55 to 68.\<close>

record listed_submission =
  listed_id :: string
  listed_title :: string
  listed_address :: string

definition fetchSubmissionList :: "page \<Rightarrow> listed_submission list promise" where
  "fetchSubmissionList submissionsPage =
     evaluated
       (map_throw
          (\<lambda>tds.
             bind_throw (cell tds 6) (\<lambda>td6.
             bind_throw (cell_anchor tds 8) (\<lambda>a8.
             bind_throw (cell_anchor tds 12) (\<lambda>a12.
             Inr \<lparr>listed_id = td_text td6, listed_title = a_title a8,
                  listed_address = href a12\<rparr>))))
          (submission_trs submissionsPage))"

section \<open>The run\<close>

text \<open>A line of the log: an information message (the one that lists the categories by
  their count and names), or the error the top level logs.\<close>

datatype log_entry = Info string | Found nat "string list" | LogError error

text \<open>The object handed to \<^verbatim>\<open>JSON.stringify\<close>: its keys in order, each with a text or
  with the array of categories.\<close>

datatype 's doc_value = Text string | Categories "'s category list"

type_synonym 's document = "(string \<times> 's doc_value) list"

definition ENTRY_URL :: string where
  "ENTRY_URL = ''https://precisionconference.com/~sigchi''"

definition OUTPUT_FILE :: string where
  "OUTPUT_FILE = ''reviews.json''"

text \<open>The fan-out over the categories in \<^verbatim>\<open>main\<close>, \<^verbatim>\<open>index.js\<close> lines 348 to 354.\<close>

definition reviewCategories :: "env \<Rightarrow> category_link list \<Rightarrow> submission category list promise" where
  "reviewCategories env categories =
     promise_all (sched env (map address categories))
       (map (\<lambda>cat.
               await (scrapeSubmissions env (address cat)) (\<lambda>subs.
               Resolved (category_link.extend cat (category.fields subs))))
          categories)"

text \<open>The one of \<^verbatim>\<open>part_000\<close>, lines 96 to 105.\<close>

definition categoriesData :: "env \<Rightarrow> category_link list \<Rightarrow> listed_submission category list promise" where
  "categoriesData env categories =
     promise_all (sched env (map address categories))
       (map (\<lambda>cat.
               await (goto env (address cat)) (\<lambda>catPage.
               await (fetchSubmissionList catPage) (\<lambda>subs.
               Resolved (category_link.extend cat (category.fields subs)))))
          categories)"

text \<open>
  The main functions log as they go. A step is the lines it logs and the promise it
  awaits; the steps after a promise that does not fulfil do not run.
\<close>

type_synonym 'a logged = "log_entry list \<times> 'a promise"

definition step :: "'a logged \<Rightarrow> ('a \<Rightarrow> 'b logged) \<Rightarrow> 'b logged" where
  "step m f =
     (case snd m of
        Pending \<Rightarrow> (fst m, Pending)
      | Rejected e \<Rightarrow> (fst m, Rejected e)
      | Resolved x \<Rightarrow> (case f x of (lines, p) \<Rightarrow> (fst m @ lines, p)))"

definition log_info :: "string \<Rightarrow> unit logged" where
  "log_info msg = ([Info msg], Resolved ())"

definition log_found :: "category_link list \<Rightarrow> unit logged" where
  "log_found categories = ([Found (length categories) (map name categories)], Resolved ())"

definition awaited :: "'a promise \<Rightarrow> 'a logged" where
  "awaited p = ([], p)"

text \<open>\<^verbatim>\<open>JSON.parse(await readFile(CREDENTIAL_FILE))\<close>, and \<^verbatim>\<open>writeFile\<close>, which
  fulfils with the document now in the output file.\<close>

definition read_creds :: "env \<Rightarrow> (string \<times> string) promise" where
  "read_creds env = (case creds env of None \<Rightarrow> Rejected CredentialsError | Some c \<Rightarrow> Resolved c)"

definition writeFile :: "env \<Rightarrow> 's document \<Rightarrow> 's document promise" where
  "writeFile env doc = (if writable env then Resolved doc else Rejected WriteError)"

text \<open>\<^verbatim>\<open>main\<close> of \<^verbatim>\<open>index.js\<close>, lines 322 to 375.\<close>

definition main :: "env \<Rightarrow> submission document logged" where
  "main env =
     step (log_info ''Loading precisionconference.com/~sigchi...'') (\<lambda>_.
     step (awaited (goto env ENTRY_URL)) (\<lambda>page.
     step (awaited (read_creds env)) (\<lambda>(username, password).
     step (log_info (''Logging as '' @ username @ ''.'')) (\<lambda>_.
     step (awaited (logIn env page username password)) (\<lambda>home.
     step (log_info ''Look for reviews...'') (\<lambda>_.
     step (awaited (scrapeSubmissionCategories home)) (\<lambda>categories.
     step (log_found categories) (\<lambda>_.
     step (log_info ''Scrape reviews...'') (\<lambda>_.
     step (awaited (reviewCategories env categories)) (\<lambda>cats.
     step (awaited (writeFile env
             [(''scrapper'', Text (pkg_name env)),
              (''version'', Text (pkg_version env)),
              (''username'', Text username),
              (''date'', Text (now env)),
              (''reviewCategories'', Categories cats)])) (\<lambda>doc.
     step (log_info (''Data written in '' @ OUTPUT_FILE @ ''.'')) (\<lambda>_.
     awaited (Resolved doc)))))))))))))"

text \<open>The top-level function of \<^verbatim>\<open>part_000\<close>, lines 70 to 126.\<close>

definition main_part_000 :: "env \<Rightarrow> listed_submission document logged" where
  "main_part_000 env =
     step (log_info ''Loading precisionconference.com/~sigchi...'') (\<lambda>_.
     step (awaited (goto env ENTRY_URL)) (\<lambda>page.
     step (awaited (read_creds env)) (\<lambda>(username, password).
     step (log_info (''Logging as '' @ username @ ''.'')) (\<lambda>_.
     step (awaited (logIn env page username password)) (\<lambda>home.
     step (log_info ''Look for reviews...'') (\<lambda>_.
     step (awaited (scrapeSubmissionCategories home)) (\<lambda>categories.
     step (log_found categories) (\<lambda>_.
     step (log_info ''Scrap reviews...'') (\<lambda>_.
     step (awaited (categoriesData env categories)) (\<lambda>cats.
     step (awaited (writeFile env
             [(''scrapper'', Text (pkg_name env)),
              (''version'', Text (pkg_version env)),
              (''username'', Text username),
              (''date'', Text (now env)),
              (''categories'', Categories cats)])) (\<lambda>doc.
     step (log_info (''Data written in '' @ OUTPUT_FILE @ ''.'')) (\<lambda>_.
     awaited (Resolved doc)))))))))))))"

text \<open>
  The process at its end: the log, the document in the output file when one was written,
  and the exit status (\<open>None\<close> when the process does not end).
  \<^verbatim>\<open>.catch(e => { log.error(e); process.exit(0); })\<close> handles a rejection; a process
  whose main promise is fulfilled ends by itself, with status 0.
\<close>

record 's process =
  log_lines :: "log_entry list"
  written :: "'s document option"
  exit_status :: "int option"

definition top_level :: "'s document logged \<Rightarrow> 's process" where
  "top_level r =
     (case snd r of
        Pending \<Rightarrow> \<lparr>log_lines = fst r, written = None, exit_status = None\<rparr>
      | Rejected e \<Rightarrow> \<lparr>log_lines = fst r @ [LogError e], written = None, exit_status = Some 0\<rparr>
      | Resolved doc \<Rightarrow> \<lparr>log_lines = fst r, written = Some doc, exit_status = Some 0\<rparr>)"

section \<open>The review parts, as the specification words them\<close>

text \<open>
  Pairing consecutive rows: a title row, then its content row; a last title row without
  a content row is paired with nothing. The part of a pair has the trimmed texts; a title
  row without text gives the title \<^verbatim>\<open>null\<close>.
\<close>

fun pair_rows :: "string list \<Rightarrow> (string \<times> string option) list" where
  "pair_rows [] = []"
| "pair_rows [t] = [(t, None)]"
| "pair_rows (t # c # rest) = (t, Some c) # pair_rows rest"

definition part_of_pair :: "string \<times> string option \<Rightarrow> review_part" where
  "part_of_pair pr =
     \<lparr>title = (if fst pr = [] then None else Some (trim (fst pr))),
      content = map_option trim (snd pr)\<rparr>"

section \<open>Parenthesized groups, as the specification words them\<close>

text \<open>
  A parenthesized group of \<open>s\<close> at position \<open>i\<close> with token \<open>t\<close>: an opening
  parenthesis at \<open>i\<close>, then \<open>t\<close>, which is not empty and has no closing parenthesis,
  then a closing parenthesis. The token of the first group is the token of the group at
  the least position that has one.
\<close>

definition paren_group_at :: "string \<Rightarrow> nat \<Rightarrow> string \<Rightarrow> bool" where
  "paren_group_at s i t \<longleftrightarrow>
     t \<noteq> [] \<and> CHR '')'' \<notin> set t \<and> take (length t + 2) (drop i s) = ''('' @ t @ '')''"

definition first_paren_token :: "string \<Rightarrow> string \<Rightarrow> bool" where
  "first_paren_token s t \<longleftrightarrow>
     (\<exists>i. paren_group_at s i t \<and> (\<forall>j<i. \<forall>u. \<not> paren_group_at s j u))"

definition no_paren_group :: "string \<Rightarrow> bool" where
  "no_paren_group s \<longleftrightarrow> (\<forall>i t. \<not> paren_group_at s i t)"

section \<open>The number a review page shows\<close>

text \<open>The number the scraper receives for the page at an address: the numeric coercion
  of the bold text of the reviewer cell, passed by value (so \<open>Some None\<close> is
  \<^verbatim>\<open>null\<close>); \<open>None\<close> when the address does not load or the page has not that cell or
  that bold text.\<close>

definition shown_number :: "env \<Rightarrow> string \<Rightarrow> number option option" where
  "shown_number env a =
     (case web env a of
        None \<Rightarrow> None
      | Some p \<Rightarrow>
          (case info_td p 0 of
             Inl e \<Rightarrow> None
           | Inr c \<Rightarrow> map_option (\<lambda>t. json_number (string_to_number t)) (td_b c)))"

section \<open>The numerals of a scale, as the specification words them\<close>

text \<open>A digit, optionally carrying one decimal digit, and the number it denotes.\<close>

fun scale_numeral :: "string \<Rightarrow> bool" where
  "scale_numeral [d] = is_digit d"
| "scale_numeral [d, p, f] = (is_digit d \<and> p = CHR ''.'' \<and> is_digit f)"
| "scale_numeral _ = False"

fun numeral_value :: "string \<Rightarrow> rat" where
  "numeral_value [d] = of_nat (of_char d - 48)"
| "numeral_value [d, p, f] = of_nat (of_char d - 48) + of_nat (of_char f - 48) / 10"
| "numeral_value _ = 0"

text \<open>
  The text \<open>s\<close> has a scale at position \<open>i\<close>: from there it reads \<open>scale is X..Y\<close> for
  two such numerals, where \<open>Y\<close> carries its decimal digit when the text has one there.
  The scale of a text is its first one, the one at the least position that has one; the
  scale is the pair of the numbers that \<open>X\<close> and \<open>Y\<close> denote, in that order.
\<close>

definition scale_at :: "string \<Rightarrow> nat \<Rightarrow> string \<Rightarrow> string \<Rightarrow> bool" where
  "scale_at s i X Y \<longleftrightarrow>
     scale_numeral X \<and> scale_numeral Y
     \<and> (\<exists>post. drop i s = ''scale is '' @ X @ ''..'' @ Y @ post
            \<and> \<not> (length Y = 1 \<and> (\<exists>f rest. post = CHR ''.'' # f # rest \<and> is_digit f)))"

definition first_scale :: "string \<Rightarrow> string \<Rightarrow> string \<Rightarrow> bool" where
  "first_scale s X Y \<longleftrightarrow>
     (\<exists>i. scale_at s i X Y \<and> (\<forall>j<i. \<forall>X' Y'. \<not> scale_at s j X' Y'))"

definition no_scale :: "string \<Rightarrow> bool" where
  "no_scale s \<longleftrightarrow> (\<forall>i X Y. \<not> scale_at s i X Y)"

definition written_scale :: "string \<Rightarrow> string \<Rightarrow> number list" where
  "written_scale X Y = [binary64 (numeral_value X), binary64 (numeral_value Y)]"

section \<open>The rows of a listing, as the selector has them\<close>

text \<open>The rows of a listing that are the fourth or a later child of their parent, in
  document order.\<close>

definition selected_rows :: "page \<Rightarrow> tr list" where
  "selected_rows p = map snd (filter (\<lambda>x. 4 \<le> fst x) (listing_rows p))"

section \<open>Numeric literals, as ECMAScript words them\<close>

text \<open>
  The grammar of StringNumericLiteral, the strings that numeric coercion does not turn
  into NaN: optional white space around nothing, around a binary, octal or hexadecimal
  integer, or around an optionally signed \<open>Infinity\<close> or decimal literal (digits with
  an optional point and an optional exponent, at least one digit before the exponent).
\<close>

definition decimal_digits :: "string \<Rightarrow> bool" where
  "decimal_digits ds \<longleftrightarrow> ds \<noteq> [] \<and> (\<forall>c \<in> set ds. is_digit c)"

definition exponent_literal :: "string \<Rightarrow> bool" where
  "exponent_literal ex \<longleftrightarrow>
     (\<exists>ds. decimal_digits ds
        \<and> ex \<in> {''e'' @ ds, ''E'' @ ds, ''e+'' @ ds, ''E+'' @ ds, ''e-'' @ ds, ''E-'' @ ds})"

definition unsigned_decimal_literal :: "string \<Rightarrow> bool" where
  "unsigned_decimal_literal u \<longleftrightarrow>
     u = ''Infinity''
     \<or> (\<exists>ip fp ex.
           (ex = [] \<or> exponent_literal ex)
           \<and> ((decimal_digits ip \<and> (fp = [] \<or> decimal_digits fp) \<and> u = ip @ ''.'' @ fp @ ex)
              \<or> (decimal_digits fp \<and> u = ''.'' @ fp @ ex)
              \<or> (decimal_digits ip \<and> u = ip @ ex)))"

definition non_decimal_literal :: "string \<Rightarrow> bool" where
  "non_decimal_literal u \<longleftrightarrow>
     (\<exists>p ds base.
        u = CHR ''0'' # p # ds \<and> ds \<noteq> [] \<and> (\<forall>c \<in> set ds. digit_of base c \<noteq> None)
        \<and> ((base = 2 \<and> (p = CHR ''b'' \<or> p = CHR ''B''))
           \<or> (base = 8 \<and> (p = CHR ''o'' \<or> p = CHR ''O''))
           \<or> (base = 16 \<and> (p = CHR ''x'' \<or> p = CHR ''X''))))"

definition numeric_literal :: "string \<Rightarrow> bool" where
  "numeric_literal s \<longleftrightarrow>
     (\<exists>ws1 body ws2.
        s = ws1 @ body @ ws2 \<and> (\<forall>c \<in> set ws1. is_ws c) \<and> (\<forall>c \<in> set ws2. is_ws c)
        \<and> (body = [] \<or> non_decimal_literal body \<or> unsigned_decimal_literal body
           \<or> (\<exists>u. unsigned_decimal_literal u
                  \<and> (body = CHR ''+'' # u \<or> body = CHR ''-'' # u))))"

text \<open>
  The value of a literal, as ECMAScript words it. \<open>positional base ds\<close> is the number
  that the digits \<open>ds\<close> denote in the base, each digit weighted by its position.
  \<open>decimal_value u v\<close>: the unsigned decimal literal \<open>u\<close> has the mathematical value \<open>v\<close>,
  its digits before and after the point scaled by the power of ten of its exponent.
  \<open>literal_number s n\<close>: the string \<open>s\<close> is a numeric literal and denotes the number \<open>n\<close>, its
  mathematical value rounded to binary64.
\<close>

definition positional :: "nat \<Rightarrow> string \<Rightarrow> int" where
  "positional base ds =
     (\<Sum>i<length ds. int (the (digit_of base (ds ! i))) * int base ^ (length ds - 1 - i))"

definition exponent_of :: "string \<Rightarrow> int \<Rightarrow> bool" where
  "exponent_of ex e \<longleftrightarrow>
     (ex = [] \<and> e = 0)
     \<or> (\<exists>ds. decimal_digits ds
           \<and> ((ex \<in> {''e'' @ ds, ''E'' @ ds, ''e+'' @ ds, ''E+'' @ ds} \<and> e = positional 10 ds)
              \<or> (ex \<in> {''e-'' @ ds, ''E-'' @ ds} \<and> e = - positional 10 ds)))"

definition decimal_value :: "string \<Rightarrow> rat \<Rightarrow> bool" where
  "decimal_value u v \<longleftrightarrow>
     (\<exists>ip fp ex e.
        exponent_of ex e
        \<and> ((decimal_digits ip \<and> (fp = [] \<or> decimal_digits fp) \<and> u = ip @ ''.'' @ fp @ ex)
           \<or> (ip = [] \<and> decimal_digits fp \<and> u = ''.'' @ fp @ ex)
           \<or> (decimal_digits ip \<and> fp = [] \<and> u = ip @ ex))
        \<and> v = (of_int (positional 10 ip) + of_int (positional 10 fp) / 10 ^ length fp)
                * 10 powi e)"

definition literal_number :: "string \<Rightarrow> number \<Rightarrow> bool" where
  "literal_number s n \<longleftrightarrow>
     (\<exists>ws1 body ws2.
        s = ws1 @ body @ ws2 \<and> (\<forall>c \<in> set ws1. is_ws c) \<and> (\<forall>c \<in> set ws2. is_ws c)
        \<and> ((body = [] \<and> n = Num 0)
           \<or> (\<exists>p ds base.
                 body = CHR ''0'' # p # ds \<and> ds \<noteq> [] \<and> (\<forall>c \<in> set ds. digit_of base c \<noteq> None)
                 \<and> ((base = 2 \<and> (p = CHR ''b'' \<or> p = CHR ''B''))
                    \<or> (base = 8 \<and> (p = CHR ''o'' \<or> p = CHR ''O''))
                    \<or> (base = 16 \<and> (p = CHR ''x'' \<or> p = CHR ''X'')))
                 \<and> n = binary64 (of_int (positional base ds)))
           \<or> ((body = ''Infinity'' \<or> body = ''+Infinity'') \<and> n = Infinity)
           \<or> (body = ''-Infinity'' \<and> n = NegInfinity)
           \<or> (\<exists>u v. decimal_value u v
                 \<and> (((body = u \<or> body = CHR ''+'' # u) \<and> n = binary64 v)
                    \<or> (body = CHR ''-'' # u \<and> n = binary64 (- v))))))"

section \<open>A frozen site, for the worked examples\<close>

text \<open>
  One category, \<open>CHI 2020\<close>, whose listing has three header rows and one submission; the
  submission has two reviews. The second review has a rating that is not a numeral, a
  rating scale written from 5 down to 1 and two review parts, one with a blank title.
  The operations of every fan-out settle in the reverse of the order they were launched.
\<close>

definition blank_page :: page where
  "blank_page =
     \<lparr>has_login_form = False, category_links = [], listing_rows = [], review_links = [],
      info_rows = [], review_trs = []\<rparr>"

definition plain_td :: "string \<Rightarrow> td" where
  "plain_td t = \<lparr>td_text = t, td_a = None, td_b = None\<rparr>"

definition link_td :: "string \<Rightarrow> string \<Rightarrow> td" where
  "link_td t h = \<lparr>td_text = t, td_a = Some \<lparr>href = h, a_title = t, a_text = t\<rparr>, td_b = None\<rparr>"

definition bold_td :: "string \<Rightarrow> string \<Rightarrow> td" where
  "bold_td t bt = \<lparr>td_text = t, td_a = None, td_b = Some bt\<rparr>"

definition example_row :: tr where
  "example_row =
     [plain_td ''Done'', plain_td [], plain_td [], plain_td [], plain_td ''Best paper'',
      plain_td [], plain_td ''123'', plain_td [], link_td ''Paper X'' ''/sub/123'',
      plain_td [], plain_td [], plain_td [], link_td ''reviews'' ''/rev/123'', plain_td [],
      plain_td ''Jane Doe (coordinator)'']"

definition example_listing :: page where
  "example_listing = blank_page\<lparr>listing_rows := sibling_rows [[], [], [], example_row]\<rparr>"

definition example_submission_page :: page where
  "example_submission_page =
     blank_page\<lparr>review_links :=
       [\<lparr>href = ''/rev/123/1'', a_title = [], a_text = ''Review 1 (you)''\<rparr>,
        \<lparr>href = ''/rev/123/2'', a_title = [], a_text = ''Review 2''\<rparr>]\<rparr>"

definition example_review_1 :: page where
  "example_review_1 =
     blank_page\<lparr>info_rows :=
       map plain_row
         [[plain_td ''Reviewer'', bold_td ''Reviewer 1 (AC)'' ''1''],
          [],
          [plain_td ''Rating'', bold_td ''3 (scale is 1..5)'' ''3''],
          [plain_td ''Expertise'', bold_td ''4'' ''4'']]\<rparr>"

definition example_review_2 :: page where
  "example_review_2 =
     blank_page\<lparr>info_rows :=
       map plain_row
         [[plain_td ''Reviewer'', bold_td ''Reviewer 2'' ''2''],
          [],
          [plain_td ''Rating'', bold_td ''N/A; scale is 5..1'' ''N/A''],
          [plain_td ''Expertise'', bold_td ''4 (scale is 1.5..4.5)'' '' 4 '']],
      review_trs := [''Strengths '', '' ok '', [], ''untitled'', '' '', ''dropped'', ''Last'']\<rparr>"

definition example_home :: page where
  "example_home =
     blank_page\<lparr>category_links :=
       [(\<lparr>href = ''/cat/1'', a_title = [], a_text = ''reviews''\<rparr>, Some ''CHI 2020'')]\<rparr>"

definition example_web :: "string \<Rightarrow> page option" where
  "example_web a =
     (if a = ENTRY_URL then Some (blank_page\<lparr>has_login_form := True\<rparr>)
      else if a = ''/cat/1'' then Some example_listing
      else if a = ''/rev/123'' then Some example_submission_page
      else if a = ''/rev/123/1'' then Some example_review_1
      else if a = ''/rev/123/2'' then Some example_review_2
      else None)"

definition example_env :: env where
  "example_env =
     \<lparr>pkg_name = ''pcs-scrapper'', pkg_version = ''1.0.0'', creds = Some (''me'', ''secret''),
      now = ''2018-01-01T00:00:00.000Z'', web = example_web,
      submit_login = (\<lambda>u p. Some example_home),
      sched = (\<lambda>as. rev [0..<length as]), writable = True\<rparr>"

text \<open>What the callback of \<^verbatim>\<open>scrapeSubmissionReview\<close> returns in the two review pages.\<close>

definition example_results :: "number review_info list" where
  "example_results =
     [\<lparr>number = Num 1, rating = Num 3, reviewerExpertise = Num 4, reviewerType = Some ''AC'',
       ratingScale = Some [Num 1, Num 5], expertiseScale = None, reviewParts = []\<rparr>,
      \<lparr>number = Num 2, rating = NaN, reviewerExpertise = Num 4,
       reviewerType = Some ''external'', ratingScale = Some [Num 5, Num 1],
       expertiseScale = Some [Num (3 / 2), Num (9 / 2)],
       reviewParts =
         [\<lparr>title = Some ''Strengths'', content = Some ''ok''\<rparr>,
          \<lparr>title = None, content = Some ''untitled''\<rparr>,
          \<lparr>title = Some ''Last'', content = None\<rparr>]\<rparr>]"

text \<open>What the scraper extracts from the frozen site.\<close>

definition example_reviews :: "number option review list" where
  "example_reviews =
     [\<lparr>number = Some (Num 1), rating = Some (Num 3), reviewerExpertise = Some (Num 4),
       reviewerType = Some ''AC'', ratingScale = Some [Some (Num 1), Some (Num 5)],
       expertiseScale = None, reviewParts = [], isUser = True\<rparr>,
      \<lparr>number = Some (Num 2), rating = None, reviewerExpertise = Some (Num 4),
       reviewerType = Some ''external'', ratingScale = Some [Some (Num 5), Some (Num 1)],
       expertiseScale = Some [Some (Num (3 / 2)), Some (Num (9 / 2))],
       reviewParts =
         [\<lparr>title = Some ''Strengths'', content = Some ''ok''\<rparr>,
          \<lparr>title = None, content = Some ''untitled''\<rparr>,
          \<lparr>title = Some ''Last'', content = None\<rparr>],
       isUser = False\<rparr>]"

definition example_submissions :: "submission list" where
  "example_submissions =
     [\<lparr>sub_id = ''123'', sub_title = ''Paper X'', submissionAddress = ''/sub/123'',
       reviewsAddress = ''/rev/123'', reviewStatus = ''Done'',
       coordinator = Some ''coordinator'', reviews = example_reviews\<rparr>]"

definition example_listed :: "listed_submission list" where
  "example_listed =
     [\<lparr>listed_id = ''123'', listed_title = ''Paper X'', listed_address = ''/rev/123''\<rparr>]"

definition example_category_links :: "category_link list" where
  "example_category_links = [\<lparr>name = ''CHI 2020'', address = ''/cat/1''\<rparr>]"

definition example_categories :: "submission category list" where
  "example_categories =
     [\<lparr>name = ''CHI 2020'', address = ''/cat/1'', submissions = example_submissions\<rparr>]"

definition example_categories_listed :: "listed_submission category list" where
  "example_categories_listed =
     [\<lparr>name = ''CHI 2020'', address = ''/cat/1'', submissions = example_listed\<rparr>]"

text \<open>A submission whose two reviews are on different pages that show the same number.\<close>

definition duplicate_env :: env where
  "duplicate_env =
     example_env\<lparr>web := example_web
       (''/rev/dup'' \<mapsto>
          blank_page\<lparr>review_links :=
            [\<lparr>href = ''/rev/123/1'', a_title = [], a_text = ''Review 1 (you)''\<rparr>,
             \<lparr>href = ''/rev/dup/2'', a_title = [], a_text = ''Review 1''\<rparr>]\<rparr>,
        ''/rev/dup/2'' \<mapsto> example_review_1)\<rparr>"

definition duplicate_reviews :: "number option review list" where
  "duplicate_reviews = [example_reviews ! 0, (example_reviews ! 0)\<lparr>isUser := False\<rparr>]"

definition broken_listing_env :: env where
  "broken_listing_env =
     example_env\<lparr>web := example_web(''/cat/1'' \<mapsto>
       blank_page\<lparr>listing_rows := sibling_rows [[], [], [], [plain_td ''Done'']]\<rparr>)\<rparr>"

text \<open>A listing whose table has its three header rows in a \<^verbatim>\<open>thead\<close> and two rows of
  submissions in the \<^verbatim>\<open>tbody\<close>: the positions start again in the second parent.\<close>

definition sectioned_listing :: page where
  "sectioned_listing =
     blank_page\<lparr>listing_rows :=
       sibling_rows [[], [], []] @ sibling_rows [example_row, example_row]\<rparr>"

definition sectioned_env :: env where
  "sectioned_env = example_env\<lparr>web := example_web(''/cat/1'' \<mapsto> sectioned_listing)\<rparr>"

text \<open>A submission with three reviews, whose pages show \<open>9007199254740992\<close>,
  \<open>9007199254740993\<close> and \<open>1e400\<close> as their numbers.\<close>

definition numbered_page :: "string \<Rightarrow> page" where
  "numbered_page n =
     blank_page\<lparr>info_rows :=
       map plain_row
         [[plain_td ''Reviewer'', bold_td ''Reviewer'' n],
          [],
          [plain_td ''Rating'', bold_td ''3'' ''3''],
          [plain_td ''Expertise'', bold_td ''4'' ''4'']]\<rparr>"

definition rounding_env :: env where
  "rounding_env =
     example_env\<lparr>web := example_web
       (''/rev/big'' \<mapsto>
          blank_page\<lparr>review_links :=
            [\<lparr>href = ''/rev/big/1'', a_title = [], a_text = ''Review''\<rparr>,
             \<lparr>href = ''/rev/big/2'', a_title = [], a_text = ''Review''\<rparr>,
             \<lparr>href = ''/rev/big/3'', a_title = [], a_text = ''Review''\<rparr>]\<rparr>,
        ''/rev/big/1'' \<mapsto> numbered_page ''9007199254740992'',
        ''/rev/big/2'' \<mapsto> numbered_page ''9007199254740993'',
        ''/rev/big/3'' \<mapsto> numbered_page ''1e400'')\<rparr>"

section \<open>Promises, fan-out and row selection\<close>

lemma those_eq_Some: "those xs = Some ys \<longleftrightarrow> xs = map Some ys"
  by (induction xs arbitrary: ys) (auto split: option.splits)

lemma settle_all_Resolved:
  assumes "settle_all order ps values remaining = Resolved vs"
    and "length values = length ps"
    and "\<forall>i<length ps. \<forall>v. values ! i = Some v \<longrightarrow> ps ! i = Resolved v"
  shows "length vs = length ps \<and> (\<forall>i<length ps. ps ! i = Resolved (vs ! i))"
  using assms
proof (induction order arbitrary: "values" remaining)
  case Nil
  then show ?case by simp
next
  case (Cons i order)
  show ?case
  proof (cases "i < length ps")
    case False
    with Cons.prems have "settle_all order ps values remaining = Resolved vs" by simp
    from Cons.IH [OF this Cons.prems(2,3)] show ?thesis .
  next
    case i: True
    show ?thesis
    proof (cases "ps ! i")
      case Pending
      with i Cons.prems have "settle_all order ps values remaining = Resolved vs" by simp
      from Cons.IH [OF this Cons.prems(2,3)] show ?thesis .
    next
      case (Rejected e)
      with i Cons.prems show ?thesis by simp
    next
      case (Resolved v)
      let ?vals = "values[i := Some v]"
      have len: "length ?vals = length ps" using Cons.prems(2) by simp
      have inv: "\<forall>j<length ps. \<forall>w. ?vals ! j = Some w \<longrightarrow> ps ! j = Resolved w"
        using Cons.prems(2,3) Resolved i by (auto simp: nth_list_update)
      show ?thesis
      proof (cases "values ! i \<noteq> None")
        case True
        with i Resolved Cons.prems have "settle_all order ps values remaining = Resolved vs"
          by simp
        from Cons.IH [OF this Cons.prems(2,3)] show ?thesis .
      next
        case fresh: False
        show ?thesis
        proof (cases "remaining - 1 = 0")
          case True
          with i Resolved fresh Cons.prems(1) have "those ?vals = Some vs"
            by (simp split: option.splits)
          then have eq: "?vals = map Some vs" by (simp add: those_eq_Some)
          then have l: "length vs = length ps" using len by (metis length_map)
          have "\<forall>j<length ps. ?vals ! j = Some (vs ! j)"
            using eq l by simp
          with inv l show ?thesis by blast
        next
          case False
          with i Resolved fresh Cons.prems(1)
          have "settle_all order ps ?vals (remaining - 1) = Resolved vs" by simp
          from Cons.IH [OF this len inv] show ?thesis .
        qed
      qed
    qed
  qed
qed

lemma promise_all_Resolved:
  assumes "promise_all order ps = Resolved vs"
  shows "length vs = length ps \<and> (\<forall>i<length ps. ps ! i = Resolved (vs ! i))"
proof (cases "ps = []")
  case True
  with assms show ?thesis by (simp add: promise_all_def)
next
  case False
  with assms have "settle_all order ps (replicate (length ps) None) (length ps) = Resolved vs"
    by (simp add: promise_all_def)
  then show ?thesis by (rule settle_all_Resolved) simp_all
qed

lemma promise_all_map_Resolved:
  assumes "promise_all order (map f xs) = Resolved vs"
  shows "length vs = length xs \<and> (\<forall>i<length xs. f (xs ! i) = Resolved (vs ! i))"
  using promise_all_Resolved [OF assms] by simp

lemma nth_child_from_aux:
  "map snd (filter (\<lambda>(i, x). k \<le> i) (enumerate n xs)) = drop (k - n) xs"
proof (induction xs arbitrary: n)
  case Nil
  then show ?case by simp
next
  case (Cons x xs)
  show ?case
  proof (cases "k \<le> n")
    case True
    then have "filter (\<lambda>(i, x). k \<le> i) (enumerate (Suc n) xs) = enumerate (Suc n) xs"
      by (auto simp: filter_id_conv in_set_enumerate_eq)
    with True show ?thesis by simp
  next
    case False
    then have "k - n = Suc (k - Suc n)" by simp
    with False Cons.IH [of "Suc n"] show ?thesis by simp
  qed
qed

lemma nth_child_from_sibling_rows: "nth_child_from k (sibling_rows xs) = drop (k - 1) xs"
  by (simp add: nth_child_from_def sibling_rows_def nth_child_from_aux)

lemma submission_trs_sibling_rows:
  "listing_rows p = sibling_rows rows \<Longrightarrow> submission_trs p = drop 3 rows"
  by (simp add: submission_trs_def nth_child_from_sibling_rows)

lemma submission_trs_filter:
  "submission_trs p = map snd (filter (\<lambda>x. 4 \<le> fst x) (listing_rows p))"
  by (simp add: submission_trs_def nth_child_from_def case_prod_unfold)

lemma map_throw_Inr:
  "map_throw f xs = Inr ys \<Longrightarrow> length ys = length xs \<and> (\<forall>i<length xs. f (xs ! i) = Inr (ys ! i))"
proof (induction xs arbitrary: ys)
  case Nil
  then show ?case by simp
next
  case (Cons x xs)
  from Cons.prems obtain y ys' where y: "f x = Inr y" and ys': "map_throw f xs = Inr ys'"
    and ys: "ys = y # ys'"
    by (auto simp: bind_throw_def split: sum.splits)
  from Cons.IH [OF ys'] y ys show ?case
    by (auto simp: nth_Cons split: nat.splits)
qed

lemma await_Resolved:
  "await p f = Resolved y \<longleftrightarrow> (\<exists>x. p = Resolved x \<and> f x = Resolved y)"
  by (cases p) (simp_all add: await_def)

lemma evaluated_Resolved: "evaluated r = Resolved x \<longleftrightarrow> r = Inr x"
  by (cases r) (simp_all add: evaluated_def)

lemma goto_Resolved: "goto env a = Resolved p \<longleftrightarrow> web env a = Some p"
  by (simp add: goto_def split: option.splits)

lemma truncate_extend_submission [simp]:
  "submission_row.truncate (submission_row.extend r m) = r"
  by (cases r) (simp add: submission_row.truncate_def submission_row.extend_def)

lemma reviews_extend [simp]:
  "reviews (submission_row.extend r (submission.fields rs)) = rs"
  by (cases r) (simp add: submission_row.extend_def submission.fields_def)

lemma truncate_extend_category [simp]:
  "category_link.truncate (category_link.extend c m) = c"
  by (cases c) (simp add: category_link.truncate_def category_link.extend_def)

lemma submissions_extend [simp]:
  "submissions (category_link.extend c (category.fields ss)) = ss"
  by (cases c) (simp add: category_link.extend_def category.fields_def)

lemma scrapeSubmissionReviews_ResolvedD:
  assumes "scrapeSubmissionReviews env a = Resolved rs"
  shows "\<exists>p. web env a = Some p \<and> length rs = length (review_links p)
           \<and> (\<forall>i<length rs.
                 scrapeSubmissionReview env (href (review_links p ! i))
                   (str_includes (a_text (review_links p ! i)) ''(you)'') = Resolved (rs ! i))"
proof -
  from assms obtain p where p: "web env a = Some p"
    and all: "promise_all (sched env (map fst (review_addresses p)))
                (map (\<lambda>(a, u). scrapeSubmissionReview env a u) (review_addresses p)) = Resolved rs"
    by (auto simp: scrapeSubmissionReviews_def await_Resolved goto_Resolved Let_def)
  from promise_all_map_Resolved [OF all]
  have "length rs = length (review_links p)"
    and "\<forall>i<length (review_links p).
           (\<lambda>(a, u). scrapeSubmissionReview env a u) (review_addresses p ! i) = Resolved (rs ! i)"
    by (simp_all add: review_addresses_def)
  with p show ?thesis by (auto simp: review_addresses_def)
qed

lemma scrapeSubmissions_ResolvedD:
  assumes "scrapeSubmissions env a = Resolved subs"
  shows "\<exists>p rows. web env a = Some p
           \<and> map_throw submission_of_tr (submission_trs p) = Inr rows
           \<and> length subs = length rows
           \<and> (\<forall>i<length rows.
                 submission_row.truncate (subs ! i) = rows ! i
                 \<and> scrapeSubmissionReviews env (reviewsAddress (rows ! i))
                     = Resolved (reviews (subs ! i)))"
proof -
  from assms obtain p rows where p: "web env a = Some p"
    and rows: "map_throw submission_of_tr (submission_trs p) = Inr rows"
    and all: "promise_all (sched env (map reviewsAddress rows))
                (map (\<lambda>sub. await (scrapeSubmissionReviews env (reviewsAddress sub))
                               (\<lambda>rs. Resolved (submission_row.extend sub (submission.fields rs))))
                   rows) = Resolved subs"
    by (auto simp: scrapeSubmissions_def await_Resolved goto_Resolved evaluated_Resolved)
  from promise_all_map_Resolved [OF all]
  have len: "length subs = length rows"
    and each: "\<forall>i<length rows. \<exists>rs. scrapeSubmissionReviews env (reviewsAddress (rows ! i)) = Resolved rs
                 \<and> subs ! i = submission_row.extend (rows ! i) (submission.fields rs)"
    by (auto simp: await_Resolved)
  from each have "\<forall>i<length rows.
      submission_row.truncate (subs ! i) = rows ! i
      \<and> scrapeSubmissionReviews env (reviewsAddress (rows ! i)) = Resolved (reviews (subs ! i))"
    by auto
  with p rows len show ?thesis by blast
qed

lemma reviewCategories_ResolvedD:
  assumes "reviewCategories env cats = Resolved cs"
  shows "length cs = length cats
         \<and> (\<forall>i<length cats.
               category_link.truncate (cs ! i) = cats ! i
               \<and> scrapeSubmissions env (address (cats ! i)) = Resolved (submissions (cs ! i)))"
proof -
  from promise_all_map_Resolved [OF assms [unfolded reviewCategories_def]]
  have len: "length cs = length cats"
    and each: "\<forall>i<length cats. \<exists>ss. scrapeSubmissions env (address (cats ! i)) = Resolved ss
                 \<and> cs ! i = category_link.extend (cats ! i) (category.fields ss)"
    by (auto simp: await_Resolved)
  from each have "\<forall>i<length cats.
      category_link.truncate (cs ! i) = cats ! i
      \<and> scrapeSubmissions env (address (cats ! i)) = Resolved (submissions (cs ! i))"
    by auto
  with len show ?thesis by blast
qed

lemma fetchSubmissionList_ResolvedD:
  assumes "fetchSubmissionList p = Resolved ls"
  shows "length ls = length (submission_trs p)
         \<and> (\<forall>i<length ls.
               cell (submission_trs p ! i) 6 = Inr td6 \<longrightarrow> listed_id (ls ! i) = td_text td6)"
proof -
  let ?f = "\<lambda>tds. bind_throw (cell tds 6) (\<lambda>td6.
             bind_throw (cell_anchor tds 8) (\<lambda>a8.
             bind_throw (cell_anchor tds 12) (\<lambda>a12.
             Inr \<lparr>listed_id = td_text td6, listed_title = a_title a8,
                  listed_address = href a12\<rparr>)))"
  from assms have "map_throw ?f (submission_trs p) = Inr ls"
    by (simp add: fetchSubmissionList_def evaluated_Resolved)
  from map_throw_Inr [OF this]
  have len: "length ls = length (submission_trs p)"
    and each: "\<forall>i<length ls. ?f (submission_trs p ! i) = Inr (ls ! i)"
    by simp_all
  have "listed_id (ls ! i) = td_text td6"
    if "i < length ls" and c: "cell (submission_trs p ! i) 6 = Inr td6" for i
  proof -
    from each that(1) have "?f (submission_trs p ! i) = Inr (ls ! i)" by blast
    then have "Inr (ls ! i) = ?f (submission_trs p ! i)" by (rule sym)
    with c show ?thesis
      by (auto simp: bind_throw_def split: sum.splits)
  qed
  with len show ?thesis by blast
qed

lemma categoriesData_ResolvedD:
  assumes "categoriesData env cats = Resolved cs"
  shows "length cs = length cats
         \<and> (\<forall>i<length cats.
               category_link.truncate (cs ! i) = cats ! i
               \<and> (\<exists>p. web env (address (cats ! i)) = Some p
                      \<and> fetchSubmissionList p = Resolved (submissions (cs ! i))))"
proof -
  from promise_all_map_Resolved [OF assms [unfolded categoriesData_def]]
  have len: "length cs = length cats"
    and each: "\<forall>i<length cats. \<exists>p ss. web env (address (cats ! i)) = Some p
                 \<and> fetchSubmissionList p = Resolved ss
                 \<and> cs ! i = category_link.extend (cats ! i) (category.fields ss)"
    by (auto simp: await_Resolved goto_Resolved)
  from each have "\<forall>i<length cats.
      category_link.truncate (cs ! i) = cats ! i
      \<and> (\<exists>p. web env (address (cats ! i)) = Some p
             \<and> fetchSubmissionList p = Resolved (submissions (cs ! i)))"
    by auto
  with len show ?thesis by blast
qed

lemma map_throw_Inr_nth:
  "map_throw f xs = Inr ys \<Longrightarrow> i < length xs \<Longrightarrow> f (xs ! i) = Inr (ys ! i)"
  using map_throw_Inr by blast

lemma settle_all_fulfils:
  assumes "length values = length vs"
    and "\<forall>j<length vs. values ! j = None \<or> values ! j = Some (vs ! j)"
    and "remaining = card {j. j < length vs \<and> values ! j = None}"
    and "0 < remaining"
    and "{j. j < length vs \<and> values ! j = None} \<subseteq> set order"
  shows "settle_all order (map Resolved vs) values remaining = Resolved vs"
  using assms
proof (induction order arbitrary: "values" remaining)
  case Nil
  then have "{j. j < length vs \<and> values ! j = None} = {}" by simp
  with Nil.prems(3,4) show ?case by simp
next
  case (Cons i order)
  let ?N = "{j. j < length vs \<and> values ! j = None}"
  show ?case
  proof (cases "i < length vs \<and> values ! i = None")
    case False
    then have "i \<notin> ?N" by blast
    with Cons.prems(5) have sub: "?N \<subseteq> set order" by auto
    have "settle_all (i # order) (map Resolved vs) values remaining
            = settle_all order (map Resolved vs) values remaining"
      using False by auto
    also have "\<dots> = Resolved vs"
      using Cons.prems(1-4) sub by (rule Cons.IH)
    finally show ?thesis .
  next
    case True
    let ?vals = "values[i := Some (vs ! i)]"
    let ?N' = "{j. j < length vs \<and> ?vals ! j = None}"
    have N': "?N' = ?N - {i}"
      using Cons.prems(1) True by (auto simp: nth_list_update split: if_splits)
    have fin: "finite ?N" by simp
    have iN: "i \<in> ?N" using True by simp
    have card: "card ?N' = remaining - 1"
      using Cons.prems(3) fin iN by (simp add: N')
    have len: "length ?vals = length vs" using Cons.prems(1) by simp
    have inv: "\<forall>j<length vs. ?vals ! j = None \<or> ?vals ! j = Some (vs ! j)"
      using Cons.prems(1,2) True by (auto simp: nth_list_update)
    show ?thesis
    proof (cases "remaining - 1 = 0")
      case zero: True
      have "finite ?N'" by simp
      with card zero have "?N' = {}" by (metis card_0_eq)
      with inv have "\<forall>j<length vs. ?vals ! j = Some (vs ! j)" by blast
      with len have "?vals = map Some vs"
        by (intro nth_equalityI) simp_all
      then have "those ?vals = Some vs" by (simp add: those_eq_Some)
      with True zero show ?thesis by simp
    next
      case pos: False
      have sub: "?N' \<subseteq> set order" using Cons.prems(5) by (auto simp: N')
      have "settle_all (i # order) (map Resolved vs) values remaining
              = settle_all order (map Resolved vs) ?vals (remaining - 1)"
        using True pos by simp
      also have "\<dots> = Resolved vs"
        using len inv card [symmetric] _ sub
      proof (rule Cons.IH)
        show "0 < remaining - 1" using pos by simp
      qed
      finally show ?thesis .
    qed
  qed
qed

lemma promise_all_fulfils:
  assumes "{..<length vs} \<subseteq> set order"
  shows "promise_all order (map Resolved vs) = Resolved vs"
proof (cases "vs = []")
  case True
  then show ?thesis by (simp add: promise_all_def)
next
  case False
  have "settle_all order (map Resolved vs) (replicate (length vs) None) (length vs) = Resolved vs"
  proof (rule settle_all_fulfils)
    show "length vs = card {j. j < length vs \<and> replicate (length vs) None ! j = None}"
      by (simp cong: conj_cong)
    show "{j. j < length vs \<and> replicate (length vs) None ! j = None} \<subseteq> set order"
      using assms by auto
    show "0 < length vs" using False by simp
  qed simp_all
  with False show ?thesis by (simp add: promise_all_def)
qed

lemma scrapeSubmissionReview_sched [simp]:
  "scrapeSubmissionReview (env\<lparr>sched := s\<rparr>) a u = scrapeSubmissionReview env a u"
  by (simp add: scrapeSubmissionReview_def goto_def)

lemma submission_eqI:
  fixes x y :: submission
  assumes "submission_row.truncate x = submission_row.truncate y" and "reviews x = reviews y"
  shows "x = y"
  using assms by (cases x, cases y) (simp add: submission_row.truncate_def)

lemma category_eqI:
  fixes x y :: "'s category"
  assumes "category_link.truncate x = category_link.truncate y"
    and "submissions x = submissions y"
  shows "x = y"
  using assms by (cases x, cases y) (simp add: category_link.truncate_def)

lemma scrapeSubmissionReviews_sched:
  assumes "scrapeSubmissionReviews (env\<lparr>sched := s\<rparr>) a = Resolved rs"
    and "scrapeSubmissionReviews (env\<lparr>sched := s'\<rparr>) a = Resolved rs'"
  shows "rs = rs'"
proof -
  from scrapeSubmissionReviews_ResolvedD [OF assms(1)] obtain p where p: "web env a = Some p"
    and l: "length rs = length (review_links p)"
    and e: "\<forall>i<length rs. scrapeSubmissionReview env (href (review_links p ! i))
              (str_includes (a_text (review_links p ! i)) ''(you)'') = Resolved (rs ! i)"
    by auto
  from scrapeSubmissionReviews_ResolvedD [OF assms(2)] p
  have l': "length rs' = length (review_links p)"
    and e': "\<forall>i<length rs'. scrapeSubmissionReview env (href (review_links p ! i))
              (str_includes (a_text (review_links p ! i)) ''(you)'') = Resolved (rs' ! i)"
    by auto
  show ?thesis
  proof (rule nth_equalityI)
    show "length rs = length rs'" using l l' by simp
    fix i assume "i < length rs"
    with e e' l l' have "Resolved (rs ! i) = Resolved (rs' ! i)" by metis
    then show "rs ! i = rs' ! i" by simp
  qed
qed

lemma scrapeSubmissions_sched:
  assumes "scrapeSubmissions (env\<lparr>sched := s\<rparr>) a = Resolved subs"
    and "scrapeSubmissions (env\<lparr>sched := s'\<rparr>) a = Resolved subs'"
  shows "subs = subs'"
proof -
  from scrapeSubmissions_ResolvedD [OF assms(1)] obtain p rows where p: "web env a = Some p"
    and rows: "map_throw submission_of_tr (submission_trs p) = Inr rows"
    and l: "length subs = length rows"
    and e: "\<forall>i<length rows. submission_row.truncate (subs ! i) = rows ! i
              \<and> scrapeSubmissionReviews (env\<lparr>sched := s\<rparr>) (reviewsAddress (rows ! i))
                  = Resolved (reviews (subs ! i))"
    by auto
  from scrapeSubmissions_ResolvedD [OF assms(2)] p rows
  have l': "length subs' = length rows"
    and e': "\<forall>i<length rows. submission_row.truncate (subs' ! i) = rows ! i
              \<and> scrapeSubmissionReviews (env\<lparr>sched := s'\<rparr>) (reviewsAddress (rows ! i))
                  = Resolved (reviews (subs' ! i))"
    by auto
  show ?thesis
  proof (rule nth_equalityI)
    show "length subs = length subs'" using l l' by simp
    fix i assume "i < length subs"
    then have i: "i < length rows" using l by simp
    from e e' i have "reviews (subs ! i) = reviews (subs' ! i)"
      by (blast intro: scrapeSubmissionReviews_sched)
    moreover from e e' i
    have "submission_row.truncate (subs ! i) = submission_row.truncate (subs' ! i)" by simp
    ultimately show "subs ! i = subs' ! i" by (rule submission_eqI [rotated])
  qed
qed

lemma reviewCategories_sched:
  assumes "reviewCategories (env\<lparr>sched := s\<rparr>) cats = Resolved cs"
    and "reviewCategories (env\<lparr>sched := s'\<rparr>) cats = Resolved cs'"
  shows "cs = cs'"
proof -
  note d = reviewCategories_ResolvedD [OF assms(1)]
  note d' = reviewCategories_ResolvedD [OF assms(2)]
  show ?thesis
  proof (rule nth_equalityI)
    show "length cs = length cs'" using d d' by simp
    fix i assume "i < length cs"
    then have i: "i < length cats" using d by simp
    from d d' i have "submissions (cs ! i) = submissions (cs' ! i)"
      by (blast intro: scrapeSubmissions_sched)
    moreover from d d' i
    have "category_link.truncate (cs ! i) = category_link.truncate (cs' ! i)" by simp
    ultimately show "cs ! i = cs' ! i" by (rule category_eqI [rotated])
  qed
qed

section \<open>The main functions, step by step\<close>

lemma snd_step_Resolved:
  "snd (step m f) = Resolved y \<longleftrightarrow> (\<exists>x. snd m = Resolved x \<and> snd (f x) = Resolved y)"
  by (auto simp: step_def split: promise.splits prod.splits)

lemma snd_log_info [simp]: "snd (log_info msg) = Resolved ()"
  by (simp add: log_info_def)

lemma snd_log_found [simp]: "snd (log_found cs) = Resolved ()"
  by (simp add: log_found_def)

lemma snd_awaited [simp]: "snd (awaited p) = p"
  by (simp add: awaited_def)

lemma writeFile_Resolved: "writeFile env d = Resolved d' \<longleftrightarrow> writable env \<and> d' = d"
  by (auto simp: writeFile_def)

lemma read_creds_Resolved: "read_creds env = Resolved c \<longleftrightarrow> creds env = Some c"
  by (auto simp: read_creds_def split: option.splits)

lemma main_ResolvedD:
  assumes "snd (main env) = Resolved doc"
  shows "\<exists>page u pw home categories cats.
           goto env ENTRY_URL = Resolved page \<and> creds env = Some (u, pw)
           \<and> logIn env page u pw = Resolved home
           \<and> scrapeSubmissionCategories home = Resolved categories
           \<and> reviewCategories env categories = Resolved cats
           \<and> writable env
           \<and> doc = [(''scrapper'', Text (pkg_name env)), (''version'', Text (pkg_version env)),
                    (''username'', Text u), (''date'', Text (now env)),
                    (''reviewCategories'', Categories cats)]"
  using assms
  by (auto simp: main_def snd_step_Resolved writeFile_Resolved read_creds_Resolved
           split: prod.splits)

lemma main_part_000_ResolvedD:
  assumes "snd (main_part_000 env) = Resolved doc"
  shows "\<exists>page u pw home categories cats.
           goto env ENTRY_URL = Resolved page \<and> creds env = Some (u, pw)
           \<and> logIn env page u pw = Resolved home
           \<and> scrapeSubmissionCategories home = Resolved categories
           \<and> categoriesData env categories = Resolved cats
           \<and> writable env
           \<and> doc = [(''scrapper'', Text (pkg_name env)), (''version'', Text (pkg_version env)),
                    (''username'', Text u), (''date'', Text (now env)),
                    (''categories'', Categories cats)]"
  using assms
  by (auto simp: main_part_000_def snd_step_Resolved writeFile_Resolved read_creds_Resolved
           split: prod.splits)

lemma written_top_level:
  "written (top_level r) = Some doc \<longleftrightarrow> snd r = Resolved doc"
  by (auto simp: top_level_def split: promise.splits)

section \<open>The worked example, evaluated\<close>

lemma review_of_body_example_1:
  "review_of_body example_review_1 = Inr (example_results ! 0)"
  by code_simp

lemma review_of_body_example_2:
  "review_of_body example_review_2 = Inr (example_results ! 1)"
  by code_simp

lemma review_of_body_445_example_1:
  "review_of_body_445 example_review_1 = Inr (review_base.truncate (example_results ! 0))"
  by code_simp

lemma review_of_body_445_example_2:
  "review_of_body_445 example_review_2 = Inr (review_base.truncate (example_results ! 1))"
  by code_simp

lemma by_value_examples:
  "review_info.extend (by_value (example_results ! 0)) (review.fields True) = example_reviews ! 0"
  "review_info.extend (by_value (example_results ! 1)) (review.fields False) = example_reviews ! 1"
  by (simp_all add: by_value_def example_results_def example_reviews_def json_number_def
      review_info.extend_def review.fields_def)

lemma web_example:
  "web example_env ENTRY_URL = Some (blank_page\<lparr>has_login_form := True\<rparr>)"
  "web example_env ''/cat/1'' = Some example_listing"
  "web example_env ''/rev/123'' = Some example_submission_page"
  "web example_env ''/rev/123/1'' = Some example_review_1"
  "web example_env ''/rev/123/2'' = Some example_review_2"
  by (simp_all add: example_env_def example_web_def ENTRY_URL_def)

lemma scrapeSubmissionReview_example:
  "scrapeSubmissionReview example_env ''/rev/123/1'' True = Resolved (example_reviews ! 0)"
  "scrapeSubmissionReview example_env ''/rev/123/2'' False = Resolved (example_reviews ! 1)"
  by (simp_all add: scrapeSubmissionReview_def goto_def web_example await_def evaluated_def
      bind_throw_def review_of_body_example_1 review_of_body_example_2 by_value_examples
      del: One_nat_def)

lemma review_addresses_example:
  "review_addresses example_submission_page = [(''/rev/123/1'', True), (''/rev/123/2'', False)]"
  by code_simp

lemma example_reviews_nth: "[example_reviews ! 0, example_reviews ! 1] = example_reviews"
  by (simp add: example_reviews_def)

lemma scrapeSubmissionReviews_example_sched:
  assumes "\<And>as :: string list. {..<length as} \<subseteq> set (s as)"
  shows "scrapeSubmissionReviews (example_env\<lparr>sched := s\<rparr>) ''/rev/123'' = Resolved example_reviews"
proof -
  have "promise_all (s [''/rev/123/1'', ''/rev/123/2'']) (map Resolved example_reviews)
      = Resolved example_reviews"
    using assms [of "[''/rev/123/1'', ''/rev/123/2'']"]
    by (intro promise_all_fulfils) (simp add: example_reviews_def)
  moreover have "map Resolved example_reviews
      = [Resolved (example_reviews ! 0), Resolved (example_reviews ! 1)]"
    by (simp add: example_reviews_def)
  ultimately show ?thesis
    by (simp add: scrapeSubmissionReviews_def goto_def web_example await_def
        review_addresses_example scrapeSubmissionReview_example)
qed

lemma example_env_sched: "example_env\<lparr>sched := \<lambda>as. rev [0..<length as]\<rparr> = example_env"
  by (simp add: example_env_def)

lemma covers_rev: "{..<length as} \<subseteq> set (rev [0..<length as])"
  by auto

lemma covers_upt: "{..<length as} \<subseteq> set [0..<length as]"
  by auto

lemma scrapeSubmissionReviews_example:
  "scrapeSubmissionReviews example_env ''/rev/123'' = Resolved example_reviews"
  using scrapeSubmissionReviews_example_sched [of "\<lambda>as. rev [0..<length as]", OF covers_rev]
  by (simp only: example_env_sched)

lemma submission_trs_example: "submission_trs example_listing = [example_row]"
  by (simp add: example_listing_def blank_page_def submission_trs_sibling_rows)

lemma submission_of_tr_example:
  "submission_of_tr example_row = Inr (submission_row.truncate (example_submissions ! 0))"
  by code_simp

lemma example_submissions_extend:
  "[submission_row.extend (submission_row.truncate (example_submissions ! 0))
      (submission.fields example_reviews)] = example_submissions"
  by (simp add: example_submissions_def submission_row.extend_def submission_row.truncate_def
      submission.fields_def)

lemma scrapeSubmissions_example_sched:
  assumes "\<And>as :: string list. {..<length as} \<subseteq> set (s as)"
  shows "scrapeSubmissions (example_env\<lparr>sched := s\<rparr>) ''/cat/1'' = Resolved example_submissions"
proof -
  let ?row = "submission_row.truncate (example_submissions ! 0)"
  let ?sub = "submission_row.extend ?row (submission.fields example_reviews)"
  have r: "reviewsAddress ?row = ''/rev/123''"
    by (simp add: example_submissions_def submission_row.truncate_def)
  have rows: "map_throw submission_of_tr (submission_trs example_listing) = Inr [?row]"
    by (simp add: submission_trs_example submission_of_tr_example bind_throw_def)
  have all: "promise_all (s [''/rev/123'']) (map Resolved [?sub]) = Resolved [?sub]"
    using assms [of "[''/rev/123'']"] by (intro promise_all_fulfils) simp
  have "scrapeSubmissions (example_env\<lparr>sched := s\<rparr>) ''/cat/1'' = Resolved [?sub]"
    using all
    by (simp add: scrapeSubmissions_def goto_def web_example await_def evaluated_def rows r
        scrapeSubmissionReviews_example_sched [OF assms])
  then show ?thesis by (simp only: example_submissions_extend)
qed

lemma scrapeSubmissions_example:
  "scrapeSubmissions example_env ''/cat/1'' = Resolved example_submissions"
  using scrapeSubmissions_example_sched [of "\<lambda>as. rev [0..<length as]", OF covers_rev]
  by (simp only: example_env_sched)

lemma example_categories_extend:
  "[category_link.extend (example_category_links ! 0) (category.fields example_submissions)]
     = example_categories"
  "[category_link.extend (example_category_links ! 0) (category.fields example_listed)]
     = example_categories_listed"
  by (simp_all add: example_categories_def example_categories_listed_def
      example_category_links_def category_link.extend_def category.fields_def)

lemma example_category_links_nth: "example_category_links = [example_category_links ! 0]"
  by (simp add: example_category_links_def)

lemma address_example_category: "address (example_category_links ! 0) = ''/cat/1''"
  by (simp add: example_category_links_def)

lemma reviewCategories_example_sched:
  assumes "\<And>as :: string list. {..<length as} \<subseteq> set (s as)"
  shows "reviewCategories (example_env\<lparr>sched := s\<rparr>) example_category_links
           = Resolved example_categories"
proof -
  let ?cat = "category_link.extend (example_category_links ! 0)
      (category.fields example_submissions)"
  have all: "promise_all (s [''/cat/1'']) (map Resolved [?cat]) = Resolved [?cat]"
    using assms [of "[''/cat/1'']"] by (intro promise_all_fulfils) simp
  have "reviewCategories (example_env\<lparr>sched := s\<rparr>) [example_category_links ! 0]
      = Resolved [?cat]"
    using all
    by (simp add: reviewCategories_def await_def address_example_category
        scrapeSubmissions_example_sched [OF assms])
  then show ?thesis
    by (simp only: example_categories_extend flip: example_category_links_nth)
qed

lemma reviewCategories_example:
  "reviewCategories example_env example_category_links = Resolved example_categories"
  using reviewCategories_example_sched [of "\<lambda>as. rev [0..<length as]", OF covers_rev]
  by (simp only: example_env_sched)

lemma reviewCategories_example_forward:
  "reviewCategories (example_env\<lparr>sched := \<lambda>as. [0..<length as]\<rparr>) example_category_links
     = Resolved example_categories"
  by (rule reviewCategories_example_sched) (rule covers_upt)

lemma fetchSubmissionList_example:
  "fetchSubmissionList example_listing = Resolved example_listed"
  by (simp add: fetchSubmissionList_def submission_trs_example) code_simp

lemma categoriesData_example:
  "categoriesData example_env example_category_links = Resolved example_categories_listed"
proof -
  let ?cat = "category_link.extend (example_category_links ! 0) (category.fields example_listed)"
  have "{..<length [?cat]} \<subseteq> set (sched example_env [''/cat/1''])"
    by (auto simp: example_env_def)
  then have all: "promise_all (sched example_env [''/cat/1'']) (map Resolved [?cat])
      = Resolved [?cat]"
    by (rule promise_all_fulfils)
  have "categoriesData example_env [example_category_links ! 0] = Resolved [?cat]"
    using all
    by (simp add: categoriesData_def await_def goto_def web_example address_example_category
        fetchSubmissionList_example)
  then show ?thesis
    by (simp only: example_categories_extend flip: example_category_links_nth)
qed

lemma scrapeSubmissionCategories_example:
  "scrapeSubmissionCategories example_home = Resolved example_category_links"
  by code_simp

lemma example_env_fields:
  "pkg_name example_env = ''pcs-scrapper''" "pkg_version example_env = ''1.0.0''"
  "creds example_env = Some (''me'', ''secret'')" "now example_env = ''2018-01-01T00:00:00.000Z''"
  "writable example_env" "submit_login example_env u p = Some example_home"
  by (simp_all add: example_env_def)

lemma logIn_example:
  "logIn example_env (blank_page\<lparr>has_login_form := True\<rparr>) u p = Resolved example_home"
  by (simp add: logIn_def example_env_fields)

lemma main_example:
  "snd (main example_env) =
     Resolved [(''scrapper'', Text ''pcs-scrapper''), (''version'', Text ''1.0.0''),
               (''username'', Text ''me''), (''date'', Text ''2018-01-01T00:00:00.000Z''),
               (''reviewCategories'', Categories example_categories)]"
  by (simp add: main_def step_def log_info_def log_found_def awaited_def goto_def web_example
      read_creds_def writeFile_def logIn_example scrapeSubmissionCategories_example
      reviewCategories_example example_env_fields)

lemma main_part_000_example:
  "snd (main_part_000 example_env) =
     Resolved [(''scrapper'', Text ''pcs-scrapper''), (''version'', Text ''1.0.0''),
               (''username'', Text ''me''), (''date'', Text ''2018-01-01T00:00:00.000Z''),
               (''categories'', Categories example_categories_listed)]"
  by (simp add: main_part_000_def step_def log_info_def log_found_def awaited_def goto_def
      web_example read_creds_def writeFile_def logIn_example scrapeSubmissionCategories_example
      categoriesData_example example_env_fields)

lemma main_example_keys:
  "map_option (map fst) (written (top_level (main example_env))) =
     Some [''scrapper'', ''version'', ''username'', ''date'', ''reviewCategories'']"
  by (simp add: top_level_def main_example)

lemma main_part_000_example_keys:
  "map_option (map fst) (written (top_level (main_part_000 example_env))) =
     Some [''scrapper'', ''version'', ''username'', ''date'', ''categories'']"
  by (simp add: top_level_def main_part_000_example)

section \<open>The envelope of the output document\<close>

text \<open>
  C3, as the code has it: the document written by a run that succeeds has the keys
  \<open>scrapper\<close>, \<open>version\<close>, \<open>username\<close>, \<open>date\<close> and then the array of categories,
  under \<open>reviewCategories\<close> in \<^verbatim>\<open>main\<close> of \<^verbatim>\<open>index.js\<close> and under \<open>categories\<close>
  in \<^verbatim>\<open>part_000\<close>. The tool name is the value of \<open>scrapper\<close>.
\<close>

theorem document_envelope:
  "(snd (main env) = Resolved doc \<longrightarrow>
      map fst doc = [''scrapper'', ''version'', ''username'', ''date'', ''reviewCategories'']
      \<and> map_of doc ''scrapper'' = Some (Text (pkg_name env))
      \<and> map_of doc ''version'' = Some (Text (pkg_version env))
      \<and> map_of doc ''username'' = map_option (\<lambda>c. Text (fst c)) (creds env)
      \<and> map_of doc ''date'' = Some (Text (now env))
      \<and> (\<exists>cats. map_of doc ''reviewCategories'' = Some (Categories cats)))
   \<and> (snd (main_part_000 env) = Resolved doc' \<longrightarrow>
      map fst doc' = [''scrapper'', ''version'', ''username'', ''date'', ''categories'']
      \<and> map_of doc' ''scrapper'' = Some (Text (pkg_name env))
      \<and> map_of doc' ''version'' = Some (Text (pkg_version env))
      \<and> map_of doc' ''username'' = map_option (\<lambda>c. Text (fst c)) (creds env)
      \<and> map_of doc' ''date'' = Some (Text (now env))
      \<and> (\<exists>cats. map_of doc' ''categories'' = Some (Categories cats)))"
proof (intro conjI impI)
  assume "snd (main env) = Resolved doc"
  from main_ResolvedD [OF this] obtain u pw cats where c: "creds env = Some (u, pw)"
    and d: "doc = [(''scrapper'', Text (pkg_name env)), (''version'', Text (pkg_version env)),
              (''username'', Text u), (''date'', Text (now env)),
              (''reviewCategories'', Categories cats)]"
    by blast
  show "map fst doc = [''scrapper'', ''version'', ''username'', ''date'', ''reviewCategories'']"
    by (simp add: d)
  show "map_of doc ''scrapper'' = Some (Text (pkg_name env))" by (simp add: d)
  show "map_of doc ''version'' = Some (Text (pkg_version env))" by (simp add: d)
  show "map_of doc ''username'' = map_option (\<lambda>c. Text (fst c)) (creds env)"
    by (simp add: d c)
  show "map_of doc ''date'' = Some (Text (now env))" by (simp add: d)
  show "\<exists>cats. map_of doc ''reviewCategories'' = Some (Categories cats)" by (simp add: d)
next
  assume "snd (main_part_000 env) = Resolved doc'"
  from main_part_000_ResolvedD [OF this] obtain u pw cats where c: "creds env = Some (u, pw)"
    and d: "doc' = [(''scrapper'', Text (pkg_name env)), (''version'', Text (pkg_version env)),
              (''username'', Text u), (''date'', Text (now env)),
              (''categories'', Categories cats)]"
    by blast
  show "map fst doc' = [''scrapper'', ''version'', ''username'', ''date'', ''categories'']"
    by (simp add: d)
  show "map_of doc' ''scrapper'' = Some (Text (pkg_name env))" by (simp add: d)
  show "map_of doc' ''version'' = Some (Text (pkg_version env))" by (simp add: d)
  show "map_of doc' ''username'' = map_option (\<lambda>c. Text (fst c)) (creds env)"
    by (simp add: d c)
  show "map_of doc' ''date'' = Some (Text (now env))" by (simp add: d)
  show "\<exists>cats. map_of doc' ''categories'' = Some (Categories cats)" by (simp add: d)
qed

theorem document_envelope_witness:
  "written (top_level (main example_env)) \<noteq> None
   \<and> written (top_level (main_part_000 example_env)) \<noteq> None
   \<and> map_of (the (written (top_level (main example_env)))) ''scrapper'' = Some (Text ''pcs-scrapper'')
   \<and> map_of (the (written (top_level (main_part_000 example_env)))) ''scrapper''
       = Some (Text ''pcs-scrapper'')"
proof -
  from main_example_keys obtain d where d: "written (top_level (main example_env)) = Some d"
    by blast
  from main_part_000_example_keys
  obtain d' where d': "written (top_level (main_part_000 example_env)) = Some d'"
    by blast
  have n: "pkg_name example_env = ''pcs-scrapper''"
    by (simp add: example_env_def)
  from d d' have "snd (main example_env) = Resolved d"
    and "snd (main_part_000 example_env) = Resolved d'"
    by (simp_all add: written_top_level)
  with document_envelope [of example_env d d'] show ?thesis
    by (simp add: d d' n)
qed

text \<open>C3 as stated fails: the document of the worked example has no key \<open>scrapperName\<close>.\<close>

theorem document_scrapperName_counterexample:
  "map_option (map fst) (written (top_level (main example_env)))
     = Some [''scrapper'', ''version'', ''username'', ''date'', ''reviewCategories'']
   \<and> ''scrapperName'' \<notin> set [''scrapper'', ''version'', ''username'', ''date'', ''reviewCategories'']"
  using main_example_keys by simp

section \<open>The exit status\<close>

lemma broken_listing_env_fields:
  "creds broken_listing_env = Some (''me'', ''secret'')"
  "submit_login broken_listing_env u p = Some example_home"
  "sched broken_listing_env as = rev [0..<length as]"
  "web broken_listing_env ENTRY_URL = Some (blank_page\<lparr>has_login_form := True\<rparr>)"
  "web broken_listing_env ''/cat/1''
     = Some (blank_page\<lparr>listing_rows := sibling_rows [[], [], [], [plain_td ''Done'']]\<rparr>)"
  by (simp_all add: broken_listing_env_def example_env_def example_web_def ENTRY_URL_def)

lemma submission_trs_broken:
  "submission_trs (blank_page\<lparr>listing_rows := sibling_rows [[], [], [], [plain_td ''Done'']]\<rparr>)
     = [[plain_td ''Done'']]"
  by (simp add: blank_page_def submission_trs_sibling_rows)

lemma submission_of_tr_broken: "submission_of_tr [plain_td ''Done''] = Inl TypeError"
  by code_simp

lemma scrapeSubmissions_broken:
  "scrapeSubmissions broken_listing_env ''/cat/1'' = Rejected TypeError"
  by (simp add: scrapeSubmissions_def goto_def broken_listing_env_fields await_def evaluated_def
      submission_trs_broken submission_of_tr_broken bind_throw_def)

lemma fetchSubmissionList_broken:
  "fetchSubmissionList
     (blank_page\<lparr>listing_rows := sibling_rows [[], [], [], [plain_td ''Done'']]\<rparr>)
     = Rejected TypeError"
  by (simp add: fetchSubmissionList_def submission_trs_broken) code_simp

lemma promise_all_one_rejected: "promise_all [0] [Rejected e] = Rejected e"
  by (simp add: promise_all_def)

lemma main_broken_listing:
  "snd (main broken_listing_env) = Rejected TypeError"
  by (simp add: main_def step_def log_info_def log_found_def awaited_def goto_def
      broken_listing_env_fields read_creds_def logIn_def scrapeSubmissionCategories_example
      reviewCategories_def example_category_links_def await_def scrapeSubmissions_broken
      promise_all_one_rejected)

lemma main_part_000_broken_listing:
  "snd (main_part_000 broken_listing_env) = Rejected TypeError"
  by (simp add: main_part_000_def step_def log_info_def log_found_def awaited_def goto_def
      broken_listing_env_fields read_creds_def logIn_def scrapeSubmissionCategories_example
      categoriesData_def example_category_links_def await_def fetchSubmissionList_broken
      promise_all_one_rejected)

lemma exit_status_zero_on_success:
  "snd r = Resolved doc \<Longrightarrow> exit_status (top_level r) = Some 0"
  by (simp add: top_level_def)

text \<open>
  C4: when the promise of a main function is rejected, the top level logs the error as
  the last line of the log and the process ends with status 0, the status of a run that
  succeeds; nothing is written.
\<close>

theorem exit_status_zero_on_error:
  "(snd (main env) = Rejected e \<longrightarrow>
      exit_status (top_level (main env)) = Some 0
      \<and> log_lines (top_level (main env)) = fst (main env) @ [LogError e]
      \<and> written (top_level (main env)) = None)
   \<and> (snd (main_part_000 env) = Rejected e' \<longrightarrow>
      exit_status (top_level (main_part_000 env)) = Some 0
      \<and> log_lines (top_level (main_part_000 env)) = fst (main_part_000 env) @ [LogError e']
      \<and> written (top_level (main_part_000 env)) = None)"
  by (simp add: top_level_def)

theorem exit_status_zero_on_error_witness:
  "snd (main broken_listing_env) = Rejected TypeError
   \<and> snd (main_part_000 broken_listing_env) = Rejected TypeError
   \<and> exit_status (top_level (main broken_listing_env)) = Some 0
   \<and> exit_status (top_level (main_part_000 broken_listing_env)) = Some 0
   \<and> last (log_lines (top_level (main broken_listing_env))) = LogError TypeError
   \<and> last (log_lines (top_level (main_part_000 broken_listing_env))) = LogError TypeError"
  using exit_status_zero_on_error [of broken_listing_env TypeError TypeError]
    main_broken_listing main_part_000_broken_listing
  by simp

section \<open>The order of the results of a fan-out\<close>

text \<open>
  C2: whatever the order in which the operations of a fan-out settle, when
  \<^verbatim>\<open>Promise.all\<close> fulfils, its array has the length of the input and the value at
  index \<open>i\<close> is the value of the promise at index \<open>i\<close>; it fulfils when every promise
  does and every index occurs in the order. So the review at index \<open>i\<close> is the one
  scraped from the link at index \<open>i\<close>, the submission at index \<open>i\<close> is the row at index
  \<open>i\<close> with the reviews scraped from its address, the category at index \<open>i\<close> is the link
  at index \<open>i\<close> with the submissions scraped from its address, and two runs that differ
  only in the settling orders give the same categories.
\<close>

theorem fan_out_preserves_order:
  "(promise_all order ps = Resolved vs \<longrightarrow>
      length vs = length ps \<and> (\<forall>i<length ps. ps ! i = Resolved (vs ! i)))
   \<and> ({..<length ws} \<subseteq> set order' \<longrightarrow> promise_all order' (map Resolved ws) = Resolved ws)
   \<and> (scrapeSubmissionReviews env a = Resolved rs \<longrightarrow>
        (\<exists>p. web env a = Some p \<and> length rs = length (review_links p)
           \<and> (\<forall>i<length rs.
                 scrapeSubmissionReview env (href (review_links p ! i))
                   (str_includes (a_text (review_links p ! i)) ''(you)'') = Resolved (rs ! i))))
   \<and> (scrapeSubmissions env b = Resolved subs \<longrightarrow>
        (\<exists>p rows. web env b = Some p
           \<and> map_throw submission_of_tr (submission_trs p) = Inr rows
           \<and> length subs = length rows
           \<and> (\<forall>i<length rows.
                 submission_row.truncate (subs ! i) = rows ! i
                 \<and> scrapeSubmissionReviews env (reviewsAddress (rows ! i))
                     = Resolved (reviews (subs ! i)))))
   \<and> (reviewCategories env cats = Resolved cs \<longrightarrow>
        length cs = length cats
        \<and> (\<forall>i<length cats.
              category_link.truncate (cs ! i) = cats ! i
              \<and> scrapeSubmissions env (address (cats ! i)) = Resolved (submissions (cs ! i))))
   \<and> (reviewCategories (env\<lparr>sched := s\<rparr>) cats = Resolved csa
        \<and> reviewCategories (env\<lparr>sched := s'\<rparr>) cats = Resolved csb \<longrightarrow> csa = csb)"
  (is "?A \<and> ?B \<and> ?C \<and> ?D \<and> ?E \<and> ?F")
proof -
  have a: ?A using promise_all_Resolved [of order ps vs] by blast
  have b: ?B using promise_all_fulfils [of ws order'] by blast
  have c: ?C using scrapeSubmissionReviews_ResolvedD [of env a rs] by blast
  have d: ?D using scrapeSubmissions_ResolvedD [of env b subs] by blast
  have e: ?E using reviewCategories_ResolvedD [of env cats cs] by blast
  have f: ?F by (blast intro: reviewCategories_sched)
  from a b c d e f show ?thesis by (intro conjI)
qed

lemma promise_all_example:
  "promise_all [2, 0, 1] [Resolved (10 :: nat), Resolved 20, Resolved 30] = Resolved [10, 20, 30]"
  by code_simp

theorem fan_out_preserves_order_witness:
  "promise_all [2, 0, 1] [Resolved (10 :: nat), Resolved 20, Resolved 30] = Resolved [10, 20, 30]
   \<and> {..<length [10 :: nat, 20, 30]} \<subseteq> set [2, 0, 1]
   \<and> scrapeSubmissionReviews example_env ''/rev/123'' = Resolved example_reviews
   \<and> scrapeSubmissionReview example_env ''/rev/123/1'' True = Resolved (example_reviews ! 0)
   \<and> scrapeSubmissionReview example_env ''/rev/123/2'' False = Resolved (example_reviews ! 1)
   \<and> scrapeSubmissions example_env ''/cat/1'' = Resolved example_submissions
   \<and> reviews (example_submissions ! 0) = example_reviews
   \<and> reviewCategories example_env example_category_links = Resolved example_categories
   \<and> submissions (example_categories ! 0) = example_submissions
   \<and> reviewCategories (example_env\<lparr>sched := \<lambda>as. [0..<length as]\<rparr>) example_category_links
       = Resolved example_categories"
proof -
  note t = fan_out_preserves_order [where order = "[2, 0, 1]"
      and ps = "[Resolved (10 :: nat), Resolved 20, Resolved 30]" and vs = "[10, 20, 30]"
      and ws = "[10 :: nat, 20, 30]" and order' = "[2, 0, 1]" and env = example_env
      and a = "''/rev/123''" and rs = example_reviews and b = "''/cat/1''"
      and subs = example_submissions and cats = example_category_links
      and cs = example_categories and s = "\<lambda>as. rev [0..<length as]"
      and csa = example_categories and s' = "\<lambda>as. [0..<length as]"
      and csb = example_categories]
  have w: "web example_env ''/rev/123'' = Some example_submission_page"
    by (simp add: example_env_def example_web_def ENTRY_URL_def)
  have l: "review_links example_submission_page =
      [\<lparr>href = ''/rev/123/1'', a_title = [], a_text = ''Review 1 (you)''\<rparr>,
       \<lparr>href = ''/rev/123/2'', a_title = [], a_text = ''Review 2''\<rparr>]"
    by (simp add: example_submission_page_def blank_page_def)
  have s: "{..<length [10 :: nat, 20, 30]} \<subseteq> set [2, 0, 1]"
    by (auto simp: less_Suc_eq numeral_3_eq_3 numeral_2_eq_2)
  have r: "length example_reviews = 2" by (simp add: example_reviews_def)
  have x: "reviews (example_submissions ! 0) = example_reviews"
    "submissions (example_categories ! 0) = example_submissions"
    by (simp_all add: example_submissions_def example_categories_def)
  from t scrapeSubmissionReviews_example w
  have each: "\<forall>i<length example_reviews.
      scrapeSubmissionReview example_env (href (review_links example_submission_page ! i))
        (str_includes (a_text (review_links example_submission_page ! i)) ''(you)'')
      = Resolved (example_reviews ! i)"
    by auto
  have r0: "scrapeSubmissionReview example_env ''/rev/123/1'' True = Resolved (example_reviews ! 0)"
    using each [rule_format, of 0] by (simp add: r l)
  have r1: "scrapeSubmissionReview example_env ''/rev/123/2'' False = Resolved (example_reviews ! 1)"
    using each [rule_format, of 1] by (simp add: r l)
  from t s have p: "promise_all [2, 0, 1] (map Resolved [10 :: nat, 20, 30]) = Resolved [10, 20, 30]"
    by blast
  from p s r0 r1 x scrapeSubmissionReviews_example scrapeSubmissions_example
    reviewCategories_example reviewCategories_example_forward
  show ?thesis by simp
qed

section \<open>Review parts\<close>

lemma pair_rows_nth:
  "length (pair_rows xs) = (length xs + 1) div 2
   \<and> (\<forall>k<(length xs + 1) div 2. pair_rows xs ! k = (xs ! (2 * k), js_nth xs (2 * k + 1)))"
proof (induction xs rule: pair_rows.induct)
  case 1
  then show ?case by simp
next
  case (2 t)
  then show ?case by (simp add: js_nth_def)
next
  case (3 t c rest)
  then show ?case
    by (auto simp: js_nth_def nth_Cons split: nat.splits)
qed

lemma even_rows_pair_rows:
  "even n \<Longrightarrow>
     map snd (filter (\<lambda>(i, x). i mod 2 = 0) (enumerate n xs)) = map fst (pair_rows xs)"
proof (induction xs arbitrary: n rule: pair_rows.induct)
  case 1
  then show ?case by simp
next
  case (2 t)
  then show ?case by (simp add: even_iff_mod_2_eq_zero)
next
  case (3 t c rest)
  from "3.prems" have "even (Suc (Suc n))" by simp
  from "3.IH" [OF this] "3.prems" show ?case
    by (simp add: even_iff_mod_2_eq_zero mod_Suc)
qed

lemma review_parts_pair_rows:
  "review_parts trs = filter (\<lambda>p. title p \<noteq> Some []) (map part_of_pair (pair_rows trs))"
proof -
  let ?mk = "\<lambda>(i, t). \<lparr>title = (if t \<noteq> [] then Some (trim t) else None),
                content = (case js_nth trs (i * 2 + 1) of Some c \<Rightarrow> Some (trim c) | None \<Rightarrow> None)\<rparr>"
  have "map ?mk (enumerate 0 (map fst (pair_rows trs))) = map part_of_pair (pair_rows trs)"
  proof (rule nth_equalityI)
    show "length (map ?mk (enumerate 0 (map fst (pair_rows trs))))
            = length (map part_of_pair (pair_rows trs))"
      by simp
    fix k assume "k < length (map ?mk (enumerate 0 (map fst (pair_rows trs))))"
    then have k: "k < length (pair_rows trs)" by simp
    with pair_rows_nth [of trs]
    have p: "pair_rows trs ! k = (trs ! (2 * k), js_nth trs (2 * k + 1))" by simp
    from k p show "map ?mk (enumerate 0 (map fst (pair_rows trs))) ! k
            = map part_of_pair (pair_rows trs) ! k"
      by (simp add: nth_enumerate_eq part_of_pair_def mult.commute split: option.splits)
  qed
  then show ?thesis
    by (simp add: review_parts_def even_rows_pair_rows)
qed

lemma review_of_body_Inr_parts:
  "review_of_body body = Inr r \<Longrightarrow> reviewParts r = review_parts (review_trs body)"
  by (auto simp: review_of_body_def bind_throw_def Let_def split: sum.splits)

lemma title_part_of_pair:
  "title (part_of_pair pr) = (if fst pr = [] then None else Some (trim (fst pr)))"
  by (simp add: part_of_pair_def)

lemma part_of_pair_kept:
  "part_of_pair pr \<in> set (review_parts trs) \<longleftrightarrow>
     (\<exists>pr' \<in> set (pair_rows trs). part_of_pair pr' = part_of_pair pr)
     \<and> title (part_of_pair pr) \<noteq> Some []"
  by (auto simp: review_parts_pair_rows image_iff) metis

text \<open>
  C6: the review parts are the parts of the consecutive (title row, content row) pairs of
  the rows of the third table, texts trimmed, without the parts whose title is the empty
  string. So no part has the empty string as its title; a pair whose title row has no text
  is kept, with the title \<^verbatim>\<open>null\<close>; a pair whose title row has only white space is
  left out; every other pair is kept with its trimmed title.
\<close>

theorem review_parts_pairs:
  "review_parts trs = filter (\<lambda>p. title p \<noteq> Some []) (map part_of_pair (pair_rows trs))
   \<and> (\<forall>p \<in> set (review_parts trs). title p \<noteq> Some [])
   \<and> (\<forall>pr \<in> set (pair_rows trs).
         fst pr = [] \<longrightarrow>
           part_of_pair pr \<in> set (review_parts trs) \<and> title (part_of_pair pr) = None)
   \<and> (\<forall>pr \<in> set (pair_rows trs).
         fst pr \<noteq> [] \<and> trim (fst pr) = [] \<longrightarrow> part_of_pair pr \<notin> set (review_parts trs))
   \<and> (\<forall>pr \<in> set (pair_rows trs).
         trim (fst pr) \<noteq> [] \<longrightarrow>
           part_of_pair pr \<in> set (review_parts trs)
           \<and> title (part_of_pair pr) = Some (trim (fst pr)))
   \<and> (review_of_body body = Inr r \<longrightarrow> reviewParts r = review_parts (review_trs body))"
  (is "?A \<and> ?B \<and> ?C \<and> ?D \<and> ?E \<and> ?F")
proof -
  have a: ?A by (rule review_parts_pair_rows)
  have b: ?B by (simp add: review_parts_def)
  have c: ?C by (auto simp: part_of_pair_kept title_part_of_pair)
  have d: ?D by (auto simp: part_of_pair_kept title_part_of_pair)
  have e: ?E by (auto simp: part_of_pair_kept title_part_of_pair trim_def)
  have f: ?F by (blast intro: review_of_body_Inr_parts)
  from a b c d e f show ?thesis by (intro conjI)
qed

lemma pair_rows_example:
  "pair_rows (review_trs example_review_2) =
     [(''Strengths '', Some '' ok ''), ([], Some ''untitled''), ('' '', Some ''dropped''),
      (''Last'', None)]"
  by (simp add: example_review_2_def blank_page_def)

lemma review_parts_example:
  "review_parts (review_trs example_review_2) =
     [\<lparr>title = Some ''Strengths'', content = Some ''ok''\<rparr>,
      \<lparr>title = None, content = Some ''untitled''\<rparr>,
      \<lparr>title = Some ''Last'', content = None\<rparr>]"
  by code_simp

lemma trim_examples:
  "trim ''Strengths '' = ''Strengths''" "trim '' '' = []" "trim ''Last'' = ''Last''"
  by code_simp+

theorem review_parts_pairs_witness:
  "pair_rows (review_trs example_review_2) =
     [(''Strengths '', Some '' ok ''), ([], Some ''untitled''), ('' '', Some ''dropped''),
      (''Last'', None)]
   \<and> review_parts (review_trs example_review_2) =
     [\<lparr>title = Some ''Strengths'', content = Some ''ok''\<rparr>,
      \<lparr>title = None, content = Some ''untitled''\<rparr>,
      \<lparr>title = Some ''Last'', content = None\<rparr>]
   \<and> part_of_pair ([], Some ''untitled'') \<in> set (review_parts (review_trs example_review_2))
   \<and> part_of_pair ('' '', Some ''dropped'') \<notin> set (review_parts (review_trs example_review_2))
   \<and> part_of_pair (''Last'', None) \<in> set (review_parts (review_trs example_review_2))
   \<and> review_of_body example_review_2 = Inr (example_results ! 1)
   \<and> reviewParts (example_results ! 1)
       = review_parts (review_trs example_review_2)"
proof -
  note t = review_parts_pairs [where trs = "review_trs example_review_2"
      and body = example_review_2 and r = "example_results ! 1"]
  have m: "([], Some ''untitled'') \<in> set (pair_rows (review_trs example_review_2))"
    "('' '', Some ''dropped'') \<in> set (pair_rows (review_trs example_review_2))"
    "(''Last'', None) \<in> set (pair_rows (review_trs example_review_2))"
    by (simp_all add: pair_rows_example)
  from t m(1) have k: "part_of_pair ([], Some ''untitled'') \<in> set (review_parts (review_trs example_review_2))"
    by (metis fst_conv)
  from t m(2) trim_examples(2)
  have d: "part_of_pair ('' '', Some ''dropped'') \<notin> set (review_parts (review_trs example_review_2))"
    by (metis fst_conv list.distinct(1))
  from t m(3) trim_examples(3)
  have l: "part_of_pair (''Last'', None) \<in> set (review_parts (review_trs example_review_2))"
    by (metis fst_conv list.distinct(1))
  from t review_of_body_example_2
  have p: "reviewParts (example_results ! 1)
       = review_parts (review_trs example_review_2)"
    by blast
  from pair_rows_example review_parts_example k d l review_of_body_example_2 p
  show ?thesis by (intro conjI)
qed

section \<open>The parenthesis pattern\<close>

lemma concat_map_last_only:
  assumes "\<forall>k. 1 \<le> k \<and> k < n \<longrightarrow> g k = []"
  shows "concat (map g (rev [1..<Suc n])) = (if 1 \<le> n then g n else [])"
proof (cases "1 \<le> n")
  case False
  then show ?thesis by simp
next
  case True
  then have "[1..<Suc n] = [1..<n] @ [n]" by simp
  moreover have "concat (map g (rev [1..<n])) = []" using assms by simp
  ultimately show ?thesis using True by simp
qed

lemma rmatch_group_plusnot_lit:
  fixes r :: string
  defines "n \<equiv> length (takeWhile (\<lambda>c. c \<noteq> CHR '')'') r)"
  shows "rmatch (Seq (Group 1 (PlusNot (CHR '')''))) (Lit '')'')) r cs =
     (if 1 \<le> n \<and> n < length r then [(drop (Suc n) r, (1, take n r) # cs)] else [])"
proof -
  define g where
    "g = (\<lambda>k. rmatch (Lit '')'') (drop k r) ((1, take (length r - length (drop k r)) r) # cs))"
  have unfold: "rmatch (Seq (Group 1 (PlusNot (CHR '')''))) (Lit '')'')) r cs
      = concat (map g (rev [1..<Suc n]))"
    by (simp add: n_def g_def comp_def)
  have nle: "n \<le> length r" by (simp add: n_def length_takeWhile_le)
  have small: "g k = []" if "1 \<le> k \<and> k < n" for k
  proof -
    from that have "k < length (takeWhile (\<lambda>c. c \<noteq> CHR '')'') r)" by (simp add: n_def)
    then have "takeWhile (\<lambda>c. c \<noteq> CHR '')'') r ! k \<in> set (takeWhile (\<lambda>c. c \<noteq> CHR '')'') r)"
      and "takeWhile (\<lambda>c. c \<noteq> CHR '')'') r ! k = r ! k"
      by (rule nth_mem, rule takeWhile_nth)
    then have "r ! k \<noteq> CHR '')''"
      by (auto dest: set_takeWhileD)
    moreover from that nle have "k < length r" by simp
    ultimately have "take 1 (drop k r) \<noteq> '')''"
      by (simp add: take_Suc_conv_app_nth)
    then show ?thesis by (simp add: g_def)
  qed
  have last: "g n = (if n < length r then [(drop (Suc n) r, (1, take n r) # cs)] else [])"
  proof (cases "n < length r")
    case True
    then have "r ! n = CHR '')''"
      using nth_length_takeWhile [of "\<lambda>c. c \<noteq> CHR '')''" r] by (simp add: n_def)
    with True have "take 1 (drop n r) = '')''"
      by (simp add: take_Suc_conv_app_nth)
    with True show ?thesis by (simp add: g_def)
  next
    case False
    with nle have "drop n r = []" by simp
    with False show ?thesis by (simp add: g_def)
  qed
  from small have "concat (map g (rev [1..<Suc n])) = (if 1 \<le> n then g n else [])"
    by (intro concat_map_last_only) blast
  then have "rmatch (Seq (Group 1 (PlusNot (CHR '')''))) (Lit '')'')) r cs
      = (if 1 \<le> n then g n else [])"
    by (simp only: unfold)
  then show ?thesis by (simp only: last) simp
qed

lemma rmatch_seq_lit_char:
  "rmatch (Seq (Lit [x]) R) (c # r) cs = (if c = x then rmatch R r cs else [])"
  by simp

lemma rmatch_paren_re:
  "rmatch paren_re s cs =
     (case s of
        [] \<Rightarrow> []
      | c # r \<Rightarrow>
          if c = CHR ''('' \<and> 1 \<le> length (takeWhile (\<lambda>c. c \<noteq> CHR '')'') r)
             \<and> length (takeWhile (\<lambda>c. c \<noteq> CHR '')'') r) < length r
          then [(drop (Suc (length (takeWhile (\<lambda>c. c \<noteq> CHR '')'') r))) r,
                 (1, take (length (takeWhile (\<lambda>c. c \<noteq> CHR '')'') r)) r) # cs)]
          else [])"
proof (cases s)
  case Nil
  then show ?thesis by (simp add: paren_re_def)
next
  case (Cons c r)
  have "rmatch paren_re (c # r) cs =
      (if c = CHR ''('' then rmatch (Seq (Group 1 (PlusNot (CHR '')''))) (Lit '')'')) r cs else [])"
    unfolding paren_re_def by (rule rmatch_seq_lit_char)
  then have "rmatch paren_re (c # r) cs =
      (if c = CHR ''(''
       then (if 1 \<le> length (takeWhile (\<lambda>c. c \<noteq> CHR '')'') r)
                \<and> length (takeWhile (\<lambda>c. c \<noteq> CHR '')'') r) < length r
             then [(drop (Suc (length (takeWhile (\<lambda>c. c \<noteq> CHR '')'') r))) r,
                    (1, take (length (takeWhile (\<lambda>c. c \<noteq> CHR '')'') r)) r) # cs)]
             else [])
       else [])"
    by (simp only: rmatch_group_plusnot_lit)
  then show ?thesis
    unfolding Cons by (simp del: rmatch.simps)
qed

lemma paren_group_at_Nil [simp]: "\<not> paren_group_at [] i t"
  by (simp add: paren_group_at_def)

lemma paren_group_at_Suc [simp]: "paren_group_at (c # s) (Suc i) t = paren_group_at s i t"
  by (simp add: paren_group_at_def)

lemma paren_group_at_0:
  "paren_group_at s 0 t \<longleftrightarrow>
     (\<exists>r. s = CHR ''('' # r \<and> t = takeWhile (\<lambda>c. c \<noteq> CHR '')'') r \<and> t \<noteq> []
          \<and> length t < length r)"
proof
  assume g: "paren_group_at s 0 t"
  then have t: "t \<noteq> []" "CHR '')'' \<notin> set t"
    and tk: "take (length t + 2) s = ''('' @ t @ '')''"
    by (simp_all add: paren_group_at_def)
  have "s = take (length t + 2) s @ drop (length t + 2) s" by simp
  with tk have s: "s = CHR ''('' # (t @ CHR '')'' # drop (length t + 2) s)" by simp
  let ?r = "t @ CHR '')'' # drop (length t + 2) s"
  have "takeWhile (\<lambda>c. c \<noteq> CHR '')'') ?r = t"
    using t(2) by (auto simp: takeWhile_tail)
  moreover have "length t < length ?r" by simp
  ultimately show "\<exists>r. s = CHR ''('' # r \<and> t = takeWhile (\<lambda>c. c \<noteq> CHR '')'') r \<and> t \<noteq> []
          \<and> length t < length r"
    using s t(1) by metis
next
  assume "\<exists>r. s = CHR ''('' # r \<and> t = takeWhile (\<lambda>c. c \<noteq> CHR '')'') r \<and> t \<noteq> []
          \<and> length t < length r"
  then obtain r where s: "s = CHR ''('' # r" and t: "t = takeWhile (\<lambda>c. c \<noteq> CHR '')'') r"
    and ne: "t \<noteq> []" and l: "length t < length r"
    by blast
  from l have "r ! length t = CHR '')''"
    unfolding t using nth_length_takeWhile [of "\<lambda>c. c \<noteq> CHR '')''" r] by simp
  moreover have "take (length t) r = t"
    unfolding t by (metis takeWhile_eq_take)
  ultimately have "take (Suc (length t)) r = t @ '')''"
    using l by (simp add: take_Suc_conv_app_nth)
  moreover have "CHR '')'' \<notin> set t"
    unfolding t by (auto dest: set_takeWhileD)
  ultimately show "paren_group_at s 0 t"
    using ne by (simp add: paren_group_at_def s)
qed

lemma paren_group_at_unique:
  "paren_group_at s i t \<Longrightarrow> paren_group_at s i u \<Longrightarrow> t = u"
proof (induction i arbitrary: s)
  case 0
  then show ?case by (auto simp: paren_group_at_0)
next
  case (Suc i)
  then show ?case by (cases s) auto
qed

lemma first_paren_token_unique:
  assumes "first_paren_token s t" and "first_paren_token s u"
  shows "t = u"
proof -
  from assms obtain i j where i: "paren_group_at s i t" "\<forall>k<i. \<forall>v. \<not> paren_group_at s k v"
    and j: "paren_group_at s j u" "\<forall>k<j. \<forall>v. \<not> paren_group_at s k v"
    by (auto simp: first_paren_token_def)
  then have "i = j" by (meson not_less_iff_gr_or_eq)
  with i(1) j(1) show ?thesis by (blast intro: paren_group_at_unique)
qed

lemma rmatch_paren_re_group:
  "(rmatch paren_re s [] = [] \<and> (\<forall>t. \<not> paren_group_at s 0 t))
   \<or> (\<exists>t rest. rmatch paren_re s [] = [(rest, [(1, t)])] \<and> paren_group_at s 0 t
         \<and> match_array 1 s (rest, [(1, t)]) = [Some (''('' @ t @ '')''), Some t])"
proof (cases s)
  case Nil
  then show ?thesis by (simp add: rmatch_paren_re)
next
  case (Cons c r)
  let ?t = "takeWhile (\<lambda>c. c \<noteq> CHR '')'') r"
  show ?thesis
  proof (cases "c = CHR ''('' \<and> 1 \<le> length ?t \<and> length ?t < length r")
    case False
    then have "rmatch paren_re s [] = []" by (simp add: Cons rmatch_paren_re)
    moreover from False have "\<forall>t. \<not> paren_group_at s 0 t"
      by (auto simp: paren_group_at_0 Cons Suc_le_eq)
    ultimately show ?thesis by blast
  next
    case True
    then have m: "rmatch paren_re s [] = [(drop (Suc (length ?t)) r, [(1, take (length ?t) r)])]"
      by (simp add: Cons rmatch_paren_re)
    have tk: "take (length ?t) r = ?t" by (metis takeWhile_eq_take)
    from True have g: "paren_group_at s 0 ?t"
      by (auto simp: paren_group_at_0 Cons)
    then have "take (length ?t + 2) s = ''('' @ ?t @ '')''" by (simp add: paren_group_at_def)
    moreover from True
    have "length s - length (drop (Suc (length ?t)) r) = length ?t + 2" by (simp add: Cons)
    ultimately
    have "match_array 1 s (drop (Suc (length ?t)) r, [(1, ?t)]) = [Some (''('' @ ?t @ '')''), Some ?t]"
      by (simp add: match_array_def)
    with m g tk show ?thesis by auto
  qed
qed

lemma exec_paren_re:
  "(exec paren_re 1 s = None \<and> no_paren_group s)
   \<or> (\<exists>t. exec paren_re 1 s = Some [Some (''('' @ t @ '')''), Some t] \<and> first_paren_token s t)"
proof (induction s)
  case Nil
  then show ?case by (simp add: rmatch_paren_re no_paren_group_def)
next
  case (Cons c s)
  from rmatch_paren_re_group [of "c # s"] show ?case
  proof (elim disjE conjE exE)
    assume none: "rmatch paren_re (c # s) [] = []" and no0: "\<forall>t. \<not> paren_group_at (c # s) 0 t"
    have shift: "paren_group_at (c # s) i t \<longleftrightarrow> (\<exists>j. i = Suc j \<and> paren_group_at s j t)" for i t
      using no0 by (cases i) auto
    from none have e: "exec paren_re 1 (c # s) = exec paren_re 1 s" by simp
    from Cons.IH show ?thesis
    proof (elim disjE conjE exE)
      assume "exec paren_re 1 s = None" and "no_paren_group s"
      with e shift show ?thesis by (auto simp: no_paren_group_def)
    next
      fix t assume x: "exec paren_re 1 s = Some [Some (''('' @ t @ '')''), Some t]"
        and f: "first_paren_token s t"
      from f obtain i where i: "paren_group_at s i t" "\<forall>j<i. \<forall>u. \<not> paren_group_at s j u"
        by (auto simp: first_paren_token_def)
      have "paren_group_at (c # s) (Suc i) t" using i(1) by simp
      moreover have "\<forall>j<Suc i. \<forall>u. \<not> paren_group_at (c # s) j u"
        using i(2) shift by auto
      ultimately have "first_paren_token (c # s) t"
        unfolding first_paren_token_def by blast
      with e x show ?thesis by simp
    qed
  next
    fix t rest
    assume m: "rmatch paren_re (c # s) [] = [(rest, [(1, t)])]"
      and g: "paren_group_at (c # s) 0 t"
      and a: "match_array 1 (c # s) (rest, [(1, t)]) = [Some (''('' @ t @ '')''), Some t]"
    from m a have "exec paren_re 1 (c # s) = Some [Some (''('' @ t @ '')''), Some t]" by simp
    moreover from g have "first_paren_token (c # s) t"
      unfolding first_paren_token_def by auto
    ultimately show ?thesis by blast
  qed
qed

lemma first_paren_token_group: "first_paren_token s t \<Longrightarrow> \<not> no_paren_group s"
  by (auto simp: first_paren_token_def no_paren_group_def)

lemma coordinator_of_exec:
  "(coordinator_of (exec paren_re 1 s) = None \<longleftrightarrow> no_paren_group s)
   \<and> (coordinator_of (exec paren_re 1 s) = Some t \<longleftrightarrow> first_paren_token s t)"
  using exec_paren_re [of s]
  by (auto simp: coordinator_of_def js_nth_opt_def
      dest: first_paren_token_group first_paren_token_unique)

lemma reviewer_type_of_exec:
  "(no_paren_group s \<longrightarrow> reviewer_type_of (exec paren_re 1 s) = Some ''external'')
   \<and> (first_paren_token s t \<longrightarrow> reviewer_type_of (exec paren_re 1 s) = Some t)
   \<and> (no_paren_group s \<or> (\<exists>u. first_paren_token s u))"
  using exec_paren_re [of s]
  by (auto simp: reviewer_type_of_def js_nth_opt_def
      dest: first_paren_token_group first_paren_token_unique)

lemma bind_throw_Inr:
  "bind_throw r f = Inr y \<longleftrightarrow> (\<exists>x. r = Inr x \<and> f x = Inr y)"
  by (cases r) (simp_all add: bind_throw_def)

lemma defined_Inr: "defined v = Inr x \<longleftrightarrow> v = Some x"
  by (cases v) (simp_all add: defined_def)

lemma first_paren_token_nonempty: "first_paren_token s t \<Longrightarrow> t \<noteq> []"
  by (auto simp: first_paren_token_def paren_group_at_def)

lemma submission_of_tr_coordinator:
  assumes "submission_of_tr tds = Inr sub"
  shows "\<exists>td14. js_nth tds 14 = Some td14
           \<and> coordinator sub = coordinator_of (exec paren_re 1 (td_text td14))"
  using assms
  unfolding submission_of_tr_def bind_throw_Inr Let_def
  by (auto simp: cell_def defined_Inr)

lemma coordinator_extend [simp]:
  "coordinator (submission_row.extend sub m) = coordinator sub"
  by (cases sub) (simp add: submission_row.extend_def)

lemma submission_of_tr_512_coordinator:
  assumes "submission_of_tr_512 tds = Inr sub"
  shows "\<exists>td14. js_nth tds 14 = Some td14
           \<and> coordinator sub = coordinator_of (exec paren_re 1 (td_text td14))"
proof -
  from assms obtain sub0 where "submission_of_tr tds = Inr sub0"
    and "coordinator sub = coordinator sub0"
    unfolding submission_of_tr_512_def bind_throw_Inr by auto
  with submission_of_tr_coordinator [of tds sub0] show ?thesis by auto
qed

lemma coordinator_of_exec_all:
  "(coordinator_of (exec paren_re 1 s) = None \<longleftrightarrow> no_paren_group s)
   \<and> (\<forall>t. coordinator_of (exec paren_re 1 s) = Some t \<longleftrightarrow> first_paren_token s t)
   \<and> coordinator_of (exec paren_re 1 s) \<noteq> Some []"
proof (intro conjI allI)
  show "coordinator_of (exec paren_re 1 s) = None \<longleftrightarrow> no_paren_group s"
    by (rule coordinator_of_exec [THEN conjunct1])
  show "coordinator_of (exec paren_re 1 s) = Some t \<longleftrightarrow> first_paren_token s t" for t
    by (rule coordinator_of_exec [THEN conjunct2])
  then show "coordinator_of (exec paren_re 1 s) \<noteq> Some []"
    using first_paren_token_nonempty [of s "[]"] by blast
qed

section \<open>The coordinator of a submission\<close>

text \<open>
  C5: for a row that is extracted, by either revision of the row callback, the coordinator
  is the token of the first parenthesized group of the text of cell 14, and has no value
  (\<open>None\<close>, never the empty string) exactly when that text has no parenthesized group.
  On the text \<open>Jane Doe (coordinator)\<close> it is \<open>coordinator\<close>.
\<close>

theorem coordinator_first_paren_token:
  "(submission_of_tr tds = Inr sub \<longrightarrow>
      (\<exists>td14. js_nth tds 14 = Some td14
         \<and> (coordinator sub = None \<longleftrightarrow> no_paren_group (td_text td14))
         \<and> (\<forall>t. coordinator sub = Some t \<longleftrightarrow> first_paren_token (td_text td14) t)
         \<and> coordinator sub \<noteq> Some []))
   \<and> (submission_of_tr_512 tds = Inr sub' \<longrightarrow>
      (\<exists>td14. js_nth tds 14 = Some td14
         \<and> (coordinator sub' = None \<longleftrightarrow> no_paren_group (td_text td14))
         \<and> (\<forall>t. coordinator sub' = Some t \<longleftrightarrow> first_paren_token (td_text td14) t)
         \<and> coordinator sub' \<noteq> Some []))"
  (is "?A \<and> ?B")
proof -
  have a: ?A
  proof
    assume "submission_of_tr tds = Inr sub"
    from submission_of_tr_coordinator [OF this] obtain td14 where t: "js_nth tds 14 = Some td14"
      and c: "coordinator sub = coordinator_of (exec paren_re 1 (td_text td14))"
      by blast
    note e = coordinator_of_exec_all [of "td_text td14", folded c]
    from t e have "js_nth tds 14 = Some td14
         \<and> (coordinator sub = None \<longleftrightarrow> no_paren_group (td_text td14))
         \<and> (\<forall>t. coordinator sub = Some t \<longleftrightarrow> first_paren_token (td_text td14) t)
         \<and> coordinator sub \<noteq> Some []"
      by (rule conjI)
    then show "\<exists>td14. js_nth tds 14 = Some td14
         \<and> (coordinator sub = None \<longleftrightarrow> no_paren_group (td_text td14))
         \<and> (\<forall>t. coordinator sub = Some t \<longleftrightarrow> first_paren_token (td_text td14) t)
         \<and> coordinator sub \<noteq> Some []"
      by (rule exI)
  qed
  have b: ?B
  proof
    assume "submission_of_tr_512 tds = Inr sub'"
    from submission_of_tr_512_coordinator [OF this] obtain td14
      where t: "js_nth tds 14 = Some td14"
        and c: "coordinator sub' = coordinator_of (exec paren_re 1 (td_text td14))"
      by blast
    note e = coordinator_of_exec_all [of "td_text td14", folded c]
    from t e have "js_nth tds 14 = Some td14
         \<and> (coordinator sub' = None \<longleftrightarrow> no_paren_group (td_text td14))
         \<and> (\<forall>t. coordinator sub' = Some t \<longleftrightarrow> first_paren_token (td_text td14) t)
         \<and> coordinator sub' \<noteq> Some []"
      by (rule conjI)
    then show "\<exists>td14. js_nth tds 14 = Some td14
         \<and> (coordinator sub' = None \<longleftrightarrow> no_paren_group (td_text td14))
         \<and> (\<forall>t. coordinator sub' = Some t \<longleftrightarrow> first_paren_token (td_text td14) t)
         \<and> coordinator sub' \<noteq> Some []"
      by (rule exI)
  qed
  from a b show ?thesis by (intro conjI)
qed

lemma submission_of_tr_512_example:
  "submission_of_tr_512 example_row =
     Inr (submission_row.extend (submission_row.truncate (example_submissions ! 0))
            (submission_row_award.fields ''Best paper''))"
  by code_simp

lemma submission_of_tr_no_coordinator:
  "submission_of_tr (example_row[14 := plain_td ''Jane Doe'']) =
     Inr ((submission_row.truncate (example_submissions ! 0))\<lparr>coordinator := None\<rparr>)"
  by code_simp

theorem coordinator_first_paren_token_witness:
  "submission_of_tr example_row = Inr (submission_row.truncate (example_submissions ! 0))
   \<and> submission_of_tr_512 example_row =
       Inr (submission_row.extend (submission_row.truncate (example_submissions ! 0))
              (submission_row_award.fields ''Best paper''))
   \<and> td_text (example_row ! 14) = ''Jane Doe (coordinator)''
   \<and> coordinator (submission_row.truncate (example_submissions ! 0)) = Some ''coordinator''
   \<and> first_paren_token ''Jane Doe (coordinator)'' ''coordinator''
   \<and> submission_of_tr (example_row[14 := plain_td ''Jane Doe'']) =
       Inr ((submission_row.truncate (example_submissions ! 0))\<lparr>coordinator := None\<rparr>)
   \<and> no_paren_group ''Jane Doe''"
proof -
  have c: "coordinator (submission_row.truncate (example_submissions ! 0)) = Some ''coordinator''"
    by (simp add: example_submissions_def submission_row.truncate_def)
  have c': "coordinator ((submission_row.truncate (example_submissions ! 0))\<lparr>coordinator := None\<rparr>)
      = None"
    by simp
  have n: "js_nth example_row 14 = Some (plain_td ''Jane Doe (coordinator)'')"
    "js_nth (example_row[14 := plain_td ''Jane Doe'']) 14 = Some (plain_td ''Jane Doe'')"
    by (simp_all add: example_row_def js_nth_def)
  have x: "td_text (example_row ! 14) = ''Jane Doe (coordinator)''"
    by (simp add: example_row_def plain_td_def)
  have y: "td_text (plain_td ''Jane Doe (coordinator)'') = ''Jane Doe (coordinator)''"
    "td_text (plain_td ''Jane Doe'') = ''Jane Doe''"
    by (simp_all add: plain_td_def)
  note t1 = coordinator_first_paren_token [where tds = example_row
      and sub = "submission_row.truncate (example_submissions ! 0)"
      and sub' = "submission_row.extend (submission_row.truncate (example_submissions ! 0))
              (submission_row_award.fields ''Best paper'')"]
  from t1 [THEN conjunct1, rule_format, OF submission_of_tr_example]
  obtain td14 where a: "js_nth example_row 14 = Some td14"
    and b: "\<forall>t. coordinator (submission_row.truncate (example_submissions ! 0)) = Some t
              \<longleftrightarrow> first_paren_token (td_text td14) t"
    by (elim exE conjE)
  from a n(1) have "td14 = plain_td ''Jane Doe (coordinator)''" by simp
  with b [rule_format, of "''coordinator''"] c y(1)
  have f: "first_paren_token ''Jane Doe (coordinator)'' ''coordinator''" by simp
  note t2 = coordinator_first_paren_token [where tds = "example_row[14 := plain_td ''Jane Doe'']"
      and sub = "(submission_row.truncate (example_submissions ! 0))\<lparr>coordinator := None\<rparr>"]
  from t2 [THEN conjunct1, rule_format, OF submission_of_tr_no_coordinator]
  obtain td14' where a': "js_nth (example_row[14 := plain_td ''Jane Doe'']) 14 = Some td14'"
    and b': "coordinator ((submission_row.truncate (example_submissions ! 0))\<lparr>coordinator := None\<rparr>)
               = None \<longleftrightarrow> no_paren_group (td_text td14')"
    by (elim exE conjE)
  from a' n(2) have "td14' = plain_td ''Jane Doe''" by simp
  with b' c' y(2) have g: "no_paren_group ''Jane Doe''" by simp
  from submission_of_tr_example submission_of_tr_512_example x c f
    submission_of_tr_no_coordinator g
  show ?thesis by (intro conjI)
qed

lemma review_of_body_reviewerType:
  assumes "review_of_body body = Inr r"
  shows "\<exists>c. info_td body 0 = Inr c
           \<and> reviewerType r = reviewer_type_of (exec paren_re 1 (td_text c))"
  using assms
  unfolding review_of_body_def bind_throw_Inr Let_def
  by auto

lemma info_td_0:
  "info_td body 0 = bind_throw (defined (js_nth (info_rows body) 0)) (\<lambda>row0. defined (second_td row0))"
  by (cases "info_rows body")
    (simp_all add: info_td_def js_nth_opt_def js_nth_def defined_def bind_throw_def)

lemma review_of_body_445_reviewerType:
  assumes "review_of_body_445 body = Inr r"
  shows "\<exists>c. info_td body 0 = Inr c
           \<and> reviewerType r = reviewer_type_of (exec paren_re 1 (td_text c))"
  using assms
  unfolding review_of_body_445_def info_td_0 bind_throw_Inr Let_def
  by auto

lemma reviewer_type_of_exec_all:
  "(no_paren_group s \<longrightarrow> reviewer_type_of (exec paren_re 1 s) = Some ''external'')
   \<and> (\<forall>t. first_paren_token s t \<longrightarrow> reviewer_type_of (exec paren_re 1 s) = Some t)
   \<and> (no_paren_group s \<or> (\<exists>t. first_paren_token s t))"
proof (intro conjI allI)
  show "no_paren_group s \<longrightarrow> reviewer_type_of (exec paren_re 1 s) = Some ''external''"
    by (rule reviewer_type_of_exec [THEN conjunct1])
  show "first_paren_token s t \<longrightarrow> reviewer_type_of (exec paren_re 1 s) = Some t" for t
    by (rule reviewer_type_of_exec [THEN conjunct2, THEN conjunct1])
  show "no_paren_group s \<or> (\<exists>t. first_paren_token s t)"
    by (rule reviewer_type_of_exec [THEN conjunct2, THEN conjunct2])
qed

section \<open>The reviewer type\<close>

text \<open>
  C9: for a review page that is extracted, by either revision of the callback, the
  reviewer type is \<open>external\<close> when the text of the reviewer cell has no parenthesized
  group, and the token of the first parenthesized group when it has one; one of the two
  is the case.
\<close>

theorem reviewer_type_default_external:
  "(review_of_body body = Inr r \<longrightarrow>
      (\<exists>c. info_td body 0 = Inr c
         \<and> (no_paren_group (td_text c) \<longrightarrow> reviewerType r = Some ''external'')
         \<and> (\<forall>t. first_paren_token (td_text c) t \<longrightarrow> reviewerType r = Some t)
         \<and> (no_paren_group (td_text c) \<or> (\<exists>t. first_paren_token (td_text c) t))))
   \<and> (review_of_body_445 body = Inr r' \<longrightarrow>
      (\<exists>c. info_td body 0 = Inr c
         \<and> (no_paren_group (td_text c) \<longrightarrow> reviewerType r' = Some ''external'')
         \<and> (\<forall>t. first_paren_token (td_text c) t \<longrightarrow> reviewerType r' = Some t)
         \<and> (no_paren_group (td_text c) \<or> (\<exists>t. first_paren_token (td_text c) t))))"
  (is "?A \<and> ?B")
proof -
  have a: ?A
  proof
    assume "review_of_body body = Inr r"
    from review_of_body_reviewerType [OF this] obtain c where c: "info_td body 0 = Inr c"
      and t: "reviewerType r = reviewer_type_of (exec paren_re 1 (td_text c))"
      by blast
    note e = reviewer_type_of_exec_all [of "td_text c", folded t]
    from c e have "info_td body 0 = Inr c
         \<and> (no_paren_group (td_text c) \<longrightarrow> reviewerType r = Some ''external'')
         \<and> (\<forall>t. first_paren_token (td_text c) t \<longrightarrow> reviewerType r = Some t)
         \<and> (no_paren_group (td_text c) \<or> (\<exists>t. first_paren_token (td_text c) t))"
      by (rule conjI)
    then show "\<exists>c. info_td body 0 = Inr c
         \<and> (no_paren_group (td_text c) \<longrightarrow> reviewerType r = Some ''external'')
         \<and> (\<forall>t. first_paren_token (td_text c) t \<longrightarrow> reviewerType r = Some t)
         \<and> (no_paren_group (td_text c) \<or> (\<exists>t. first_paren_token (td_text c) t))"
      by (rule exI)
  qed
  have b: ?B
  proof
    assume "review_of_body_445 body = Inr r'"
    from review_of_body_445_reviewerType [OF this] obtain c where c: "info_td body 0 = Inr c"
      and t: "reviewerType r' = reviewer_type_of (exec paren_re 1 (td_text c))"
      by blast
    note e = reviewer_type_of_exec_all [of "td_text c", folded t]
    from c e have "info_td body 0 = Inr c
         \<and> (no_paren_group (td_text c) \<longrightarrow> reviewerType r' = Some ''external'')
         \<and> (\<forall>t. first_paren_token (td_text c) t \<longrightarrow> reviewerType r' = Some t)
         \<and> (no_paren_group (td_text c) \<or> (\<exists>t. first_paren_token (td_text c) t))"
      by (rule conjI)
    then show "\<exists>c. info_td body 0 = Inr c
         \<and> (no_paren_group (td_text c) \<longrightarrow> reviewerType r' = Some ''external'')
         \<and> (\<forall>t. first_paren_token (td_text c) t \<longrightarrow> reviewerType r' = Some t)
         \<and> (no_paren_group (td_text c) \<or> (\<exists>t. first_paren_token (td_text c) t))"
      by (rule exI)
  qed
  from a b show ?thesis by (intro conjI)
qed

lemma paren_examples:
  "coordinator_of (exec paren_re 1 ''Reviewer 1 (AC)'') = Some ''AC''"
  "coordinator_of (exec paren_re 1 ''Reviewer 2'') = None"
  by code_simp+

lemma info_td_examples:
  "info_td example_review_1 0 = Inr (bold_td ''Reviewer 1 (AC)'' ''1'')"
  "info_td example_review_2 0 = Inr (bold_td ''Reviewer 2'' ''2'')"
  by code_simp+

theorem reviewer_type_default_external_witness:
  "review_of_body example_review_1 = Inr (example_results ! 0)
   \<and> review_of_body_445 example_review_1
       = Inr (review_base.truncate (example_results ! 0))
   \<and> first_paren_token ''Reviewer 1 (AC)'' ''AC''
   \<and> reviewerType (example_results ! 0) = Some ''AC''
   \<and> reviewerType (review_base.truncate (example_results ! 0)) = Some ''AC''
   \<and> review_of_body example_review_2 = Inr (example_results ! 1)
   \<and> review_of_body_445 example_review_2
       = Inr (review_base.truncate (example_results ! 1))
   \<and> no_paren_group ''Reviewer 2''
   \<and> reviewerType (example_results ! 1) = Some ''external''
   \<and> reviewerType (review_base.truncate (example_results ! 1))
       = Some ''external''"
proof -
  have f: "first_paren_token ''Reviewer 1 (AC)'' ''AC''"
    using paren_examples(1) coordinator_of_exec [of "''Reviewer 1 (AC)''" "''AC''"] by simp
  have n: "no_paren_group ''Reviewer 2''"
    using paren_examples(2) coordinator_of_exec [of "''Reviewer 2''" "[]"] by simp
  have y: "td_text (bold_td ''Reviewer 1 (AC)'' ''1'') = ''Reviewer 1 (AC)''"
    "td_text (bold_td ''Reviewer 2'' ''2'') = ''Reviewer 2''"
    by (simp_all add: bold_td_def)
  note t1 = reviewer_type_default_external [where body = example_review_1
      and r = "example_results ! 0"
      and r' = "review_base.truncate (example_results ! 0)"]
  note t2 = reviewer_type_default_external [where body = example_review_2
      and r = "example_results ! 1"
      and r' = "review_base.truncate (example_results ! 1)"]
  from t1 [THEN conjunct1, rule_format, OF review_of_body_example_1]
  obtain c where "info_td example_review_1 0 = Inr c"
    and "\<forall>t. first_paren_token (td_text c) t
           \<longrightarrow> reviewerType (example_results ! 0) = Some t"
    by (elim exE conjE)
  with info_td_examples(1) y(1) f
  have a1: "reviewerType (example_results ! 0) = Some ''AC''"
    by simp
  from t1 [THEN conjunct2, rule_format, OF review_of_body_445_example_1]
  obtain c where "info_td example_review_1 0 = Inr c"
    and "\<forall>t. first_paren_token (td_text c) t
           \<longrightarrow> reviewerType (review_base.truncate (example_results ! 0))
               = Some t"
    by (elim exE conjE)
  with info_td_examples(1) y(1) f
  have a2: "reviewerType (review_base.truncate (example_results ! 0))
      = Some ''AC''"
    by simp
  from t2 [THEN conjunct1, rule_format, OF review_of_body_example_2]
  obtain c where "info_td example_review_2 0 = Inr c"
    and "no_paren_group (td_text c)
           \<longrightarrow> reviewerType (example_results ! 1) = Some ''external''"
    by (elim exE conjE)
  with info_td_examples(2) y(2) n
  have b1: "reviewerType (example_results ! 1) = Some ''external''"
    by simp
  from t2 [THEN conjunct2, rule_format, OF review_of_body_445_example_2]
  obtain c where "info_td example_review_2 0 = Inr c"
    and "no_paren_group (td_text c)
           \<longrightarrow> reviewerType (review_base.truncate (example_results ! 1))
               = Some ''external''"
    by (elim exE conjE)
  with info_td_examples(2) y(2) n
  have b2: "reviewerType (review_base.truncate (example_results ! 1))
      = Some ''external''"
    by simp
  from review_of_body_example_1 review_of_body_445_example_1 f a1 a2
    review_of_body_example_2 review_of_body_445_example_2 n b1 b2
  show ?thesis by (intro conjI)
qed

section \<open>One submission for each selected row\<close>

lemma submission_trs_selected: "submission_trs p = selected_rows p"
  by (simp add: submission_trs_def nth_child_from_def selected_rows_def case_prod_unfold)

lemma selected_rows_sibling_rows:
  "listing_rows p = sibling_rows rows \<Longrightarrow> selected_rows p = drop 3 rows"
  using submission_trs_sibling_rows [of p rows] by (simp add: submission_trs_selected)

lemma submission_trs_sectioned: "submission_trs sectioned_listing = []"
  by (simp add: sectioned_listing_def blank_page_def submission_trs_def nth_child_from_def
      sibling_rows_def)

lemma fetchSubmissionList_sectioned: "fetchSubmissionList sectioned_listing = Resolved []"
  by (simp add: fetchSubmissionList_def submission_trs_sectioned evaluated_def)

lemma scrapeSubmissions_sectioned: "scrapeSubmissions sectioned_env ''/cat/1'' = Resolved []"
  by (simp add: scrapeSubmissions_def goto_def sectioned_env_def example_env_def await_def
      evaluated_def submission_trs_sectioned promise_all_def)

lemma length_sectioned: "length (listing_rows sectioned_listing) = 5"
  by (simp add: sectioned_listing_def blank_page_def sibling_rows_def)

text \<open>
  C1, as the code has it: the submissions extracted from a listing page are as many as
  the rows that are the fourth or a later child of their parent, and the submission at
  index \<open>k\<close> is the one extracted from the row at index \<open>k\<close> of those, in document order.
  It holds for \<^verbatim>\<open>scrapeSubmissions\<close>, for \<^verbatim>\<open>fetchSubmissionList\<close> of \<^verbatim>\<open>part_000\<close>,
  and for the submissions of every category of a run. When the rows of the listing are
  all the children of one parent, which has no other child, these are the rows after the
  first three.
\<close>

theorem submissions_one_per_selected_row:
  "(scrapeSubmissions env a = Resolved subs \<longrightarrow>
      (\<exists>p. web env a = Some p
           \<and> length subs = length (selected_rows p)
           \<and> (\<forall>k<length subs.
                 submission_of_tr (selected_rows p ! k)
                   = Inr (submission_row.truncate (subs ! k)))))
   \<and> (fetchSubmissionList q = Resolved ls \<longrightarrow>
        length ls = length (selected_rows q)
        \<and> (\<forall>k<length ls. \<forall>td6.
              cell (selected_rows q ! k) 6 = Inr td6 \<longrightarrow> listed_id (ls ! k) = td_text td6))
   \<and> (reviewCategories env cats = Resolved cs \<longrightarrow>
        (\<forall>i<length cats. \<exists>p.
           web env (address (cats ! i)) = Some p
           \<and> length (submissions (cs ! i)) = length (selected_rows p)))
   \<and> (categoriesData env cats = Resolved cs' \<longrightarrow>
        (\<forall>i<length cats. \<exists>p.
           web env (address (cats ! i)) = Some p
           \<and> length (submissions (cs' ! i)) = length (selected_rows p)))
   \<and> (listing_rows r = sibling_rows rows \<longrightarrow>
        selected_rows r = drop 3 rows \<and> length (selected_rows r) = length rows - 3
        \<and> (\<forall>k<length rows - 3. selected_rows r ! k = rows ! (k + 3)))"
  (is "?A \<and> ?B \<and> ?C \<and> ?D \<and> ?E")
proof -
  have a: ?A
  proof
    assume "scrapeSubmissions env a = Resolved subs"
    from scrapeSubmissions_ResolvedD [OF this] obtain p rows where p: "web env a = Some p"
      and rows: "map_throw submission_of_tr (selected_rows p) = Inr rows"
      and len: "length subs = length rows"
      and each: "\<forall>i<length rows. submission_row.truncate (subs ! i) = rows ! i"
      unfolding submission_trs_selected by blast
    from map_throw_Inr [OF rows] have l: "length rows = length (selected_rows p)"
      and r: "\<forall>i<length rows. submission_of_tr (selected_rows p ! i) = Inr (rows ! i)"
      by simp_all
    from len l r each
    have "\<forall>k<length subs. submission_of_tr (selected_rows p ! k)
            = Inr (submission_row.truncate (subs ! k))"
      by simp
    with p len l
    show "\<exists>p. web env a = Some p \<and> length subs = length (selected_rows p)
            \<and> (\<forall>k<length subs. submission_of_tr (selected_rows p ! k)
                   = Inr (submission_row.truncate (subs ! k)))"
      by auto
  qed
  have b: ?B
    using fetchSubmissionList_ResolvedD [of q ls] unfolding submission_trs_selected by blast
  have c: ?C
  proof (intro impI allI)
    fix i assume rc: "reviewCategories env cats = Resolved cs" and "i < length cats"
    with reviewCategories_ResolvedD [OF rc]
    have "scrapeSubmissions env (address (cats ! i)) = Resolved (submissions (cs ! i))"
      by blast
    from scrapeSubmissions_ResolvedD [OF this] obtain p rows
      where p: "web env (address (cats ! i)) = Some p"
        and rows: "map_throw submission_of_tr (selected_rows p) = Inr rows"
        and len: "length (submissions (cs ! i)) = length rows"
      unfolding submission_trs_selected by blast
    from map_throw_Inr [OF rows] len
    have "length (submissions (cs ! i)) = length (selected_rows p)" by simp
    with p show "\<exists>p. web env (address (cats ! i)) = Some p
          \<and> length (submissions (cs ! i)) = length (selected_rows p)"
      by blast
  qed
  have d: ?D
  proof (intro impI allI)
    fix i assume cd: "categoriesData env cats = Resolved cs'" and "i < length cats"
    with categoriesData_ResolvedD [OF cd] obtain p
      where p: "web env (address (cats ! i)) = Some p"
        and f: "fetchSubmissionList p = Resolved (submissions (cs' ! i))"
      by blast
    from fetchSubmissionList_ResolvedD [OF f]
    have "length (submissions (cs' ! i)) = length (selected_rows p)"
      unfolding submission_trs_selected by blast
    with p show "\<exists>p. web env (address (cats ! i)) = Some p
          \<and> length (submissions (cs' ! i)) = length (selected_rows p)"
      by blast
  qed
  have e: ?E
  proof
    assume "listing_rows r = sibling_rows rows"
    then have "selected_rows r = drop 3 rows" by (rule selected_rows_sibling_rows)
    then show "selected_rows r = drop 3 rows \<and> length (selected_rows r) = length rows - 3
        \<and> (\<forall>k<length rows - 3. selected_rows r ! k = rows ! (k + 3))"
      by (simp add: add.commute)
  qed
  from a b c d e show ?thesis by (intro conjI)
qed

theorem submissions_one_per_selected_row_witness:
  "scrapeSubmissions example_env ''/cat/1'' = Resolved example_submissions
   \<and> fetchSubmissionList example_listing = Resolved example_listed
   \<and> reviewCategories example_env example_category_links = Resolved example_categories
   \<and> categoriesData example_env example_category_links = Resolved example_categories_listed
   \<and> listing_rows example_listing = sibling_rows [[], [], [], example_row]
   \<and> selected_rows example_listing = [example_row]
   \<and> length example_submissions = 1
   \<and> length example_listed = 1
   \<and> submission_of_tr example_row = Inr (submission_row.truncate (example_submissions ! 0))"
proof -
  have w: "web example_env ''/cat/1'' = Some example_listing"
    by (rule web_example)
  have n: "listing_rows example_listing = sibling_rows [[], [], [], example_row]"
    by (simp add: example_listing_def blank_page_def)
  have m: "length example_submissions = 1" "length example_listed = 1"
    by (simp_all add: example_submissions_def example_listed_def)
  note t = submissions_one_per_selected_row [of example_env "''/cat/1''" example_submissions
      example_listing example_listed example_category_links example_categories
      example_categories_listed example_listing "[[], [], [], example_row]"]
  from t n have s: "selected_rows example_listing = [example_row]" by simp
  from t scrapeSubmissions_example w s m
  have "submission_of_tr example_row = Inr (submission_row.truncate (example_submissions ! 0))"
    by auto
  with scrapeSubmissions_example fetchSubmissionList_example reviewCategories_example
    categoriesData_example n s m
  show ?thesis by (intro conjI)
qed

text \<open>C1 as stated fails: on a listing whose table has three header rows in a
  \<^verbatim>\<open>thead\<close> and two rows of submissions in a \<^verbatim>\<open>tbody\<close>, no submission is extracted,
  where two rows are left after the first three of the five.\<close>

theorem submissions_after_three_rows_counterexample:
  "fetchSubmissionList sectioned_listing = Resolved []
   \<and> scrapeSubmissions sectioned_env ''/cat/1'' = Resolved []
   \<and> length (listing_rows sectioned_listing) = 5
   \<and> length ([] :: submission list) \<noteq> length (listing_rows sectioned_listing) - 3"
  using fetchSubmissionList_sectioned scrapeSubmissions_sectioned length_sectioned by simp

end
